theory Spec2Isabelle
  imports Main "HOL-Library.Word"
begin

section \<open>Python values and string primitives\<close>

text \<open>
  The services read JSON that \<^verbatim>\<open>json.loads\<close> has decoded. A submitted value is a JSON
  scalar or a flat list of scalars. JSON numbers with a fraction or an exponent (Python
  floats) and nested containers are outside this value universe, and an integer is one that
  \<^verbatim>\<open>json.loads\<close> can deliver. A Python \<^verbatim>\<open>str\<close> is a list of code points;
  \<^typ>\<open>char\<close> covers the code points up to U+00FF.
\<close>

datatype py_error = ValueError | TypeError

datatype atom = ANone | ABool bool | AInt int | AStr string

datatype jvalue = Atom atom | Many "atom list"

text \<open>Truth value testing: \<^verbatim>\<open>None\<close>, \<^verbatim>\<open>False\<close>, \<^verbatim>\<open>0\<close>, \<^verbatim>\<open>""\<close> and \<^verbatim>\<open>[]\<close> are false.\<close>

fun truthy :: "atom \<Rightarrow> bool" where
  "truthy ANone = False"
| "truthy (ABool b) = b"
| "truthy (AInt n) = (n \<noteq> 0)"
| "truthy (AStr s) = (s \<noteq> [])"

fun truthy_value :: "jvalue \<Rightarrow> bool" where
  "truthy_value (Atom a) = truthy a"
| "truthy_value (Many xs) = (xs \<noteq> [])"

text \<open>\<^verbatim>\<open>if not x\<close> on a \<^verbatim>\<open>str | None\<close>.\<close>

fun present :: "string option \<Rightarrow> bool" where
  "present None = False"
| "present (Some s) = (s \<noteq> [])"

text \<open>\<^verbatim>\<open>str.isspace\<close> on the code points up to U+00FF.\<close>

definition py_isspace :: "char \<Rightarrow> bool" where
  "py_isspace c = (let n = (of_char c :: nat) in
     (9 \<le> n \<and> n \<le> 13) \<or> (28 \<le> n \<and> n \<le> 32) \<or> n = 133 \<or> n = 160)"

definition strip :: "string \<Rightarrow> string" where
  "strip s = rev (dropWhile py_isspace (rev (dropWhile py_isspace s)))"

text \<open>\<^verbatim>\<open>str.lower\<close> on the code points up to U+00FF.\<close>

definition py_lower_char :: "char \<Rightarrow> char" where
  "py_lower_char c = (let n = (of_char c :: nat) in
     if (65 \<le> n \<and> n \<le> 90) \<or> (192 \<le> n \<and> n \<le> 214) \<or> (216 \<le> n \<and> n \<le> 222)
     then char_of (n + 32) else c)"

definition lower :: "string \<Rightarrow> string" where
  "lower s = map py_lower_char s"

text \<open>\<^verbatim>\<open>str.upper\<close> on ASCII text (its only argument here is a run of hexadecimal digits).\<close>

definition py_upper_char :: "char \<Rightarrow> char" where
  "py_upper_char c = (let n = (of_char c :: nat) in
     if 97 \<le> n \<and> n \<le> 122 then char_of (n - 32) else c)"

definition upper :: "string \<Rightarrow> string" where
  "upper s = map py_upper_char s"

definition endswith :: "string \<Rightarrow> string \<Rightarrow> bool" where
  "endswith s suffix = (length suffix \<le> length s \<and> drop (length s - length suffix) s = suffix)"

text \<open>\<^verbatim>\<open>sub in s\<close> on strings.\<close>

fun contains :: "string \<Rightarrow> string \<Rightarrow> bool" where
  "contains sub [] = (sub = [])"
| "contains sub (c # cs) = (take (length sub) (c # cs) = sub \<or> contains sub cs)"

text \<open>\<^verbatim>\<open>sep.join(xs)\<close>.\<close>

fun join :: "string \<Rightarrow> string list \<Rightarrow> string" where
  "join sep [] = []"
| "join sep [x] = x"
| "join sep (x # y # ys) = x @ sep @ join sep (y # ys)"

text \<open>\<^verbatim>\<open>str(n)\<close> of an integer: decimal digits, a minus sign when negative.\<close>

definition digit_char :: "nat \<Rightarrow> char" where
  "digit_char d = char_of (48 + d)"

fun str_nat :: "nat \<Rightarrow> string" where
  "str_nat n = (if n < 10 then [digit_char n] else str_nat (n div 10) @ [digit_char (n mod 10)])"

definition str_int :: "int \<Rightarrow> string" where
  "str_int i = (if i < 0 then CHR ''-'' # str_nat (nat (- i)) else str_nat (nat i))"

fun py_str :: "atom \<Rightarrow> string" where
  "py_str ANone = ''None''"
| "py_str (ABool b) = (if b then ''True'' else ''False'')"
| "py_str (AInt n) = str_int n"
| "py_str (AStr s) = s"

text \<open>
  \<^verbatim>\<open>int(x)\<close>. Around the literal \<^verbatim>\<open>int\<close> skips the white space of its own parser: the
  ASCII characters U+0009 to U+000D and U+0020, and U+0085 and U+00A0 (not U+001C to U+001F,
  which \<^verbatim>\<open>str.strip\<close> removes). The literal may carry one sign and is a run of decimal
  digits in which single underscores may separate digits; anything else is a
  \<^verbatim>\<open>ValueError\<close>, and so is a literal of more than 4300 digits (the default limit of the
  conversion). \<^verbatim>\<open>int\<close> of \<^verbatim>\<open>None\<close> or of a list is a \<^verbatim>\<open>TypeError\<close>.
\<close>

definition int_isspace :: "char \<Rightarrow> bool" where
  "int_isspace c = (let n = (of_char c :: nat) in
     (9 \<le> n \<and> n \<le> 13) \<or> n = 32 \<or> n = 133 \<or> n = 160)"

definition int_strip :: "string \<Rightarrow> string" where
  "int_strip s = rev (dropWhile int_isspace (rev (dropWhile int_isspace s)))"

definition is_digit :: "char \<Rightarrow> bool" where
  "is_digit c = (let n = (of_char c :: nat) in 48 \<le> n \<and> n \<le> 57)"

fun int_digits :: "nat \<Rightarrow> bool \<Rightarrow> string \<Rightarrow> nat option" where
  "int_digits acc after_digit [] = (if after_digit then Some acc else None)"
| "int_digits acc after_digit (c # cs) =
     (if is_digit c then int_digits (10 * acc + (of_char c - 48)) True cs
      else if c = CHR ''_'' \<and> after_digit then int_digits acc False cs
      else None)"

definition int_of_str :: "string \<Rightarrow> py_error + int" where
  "int_of_str s =
     (let stripped = int_strip s in
        if length (filter is_digit stripped) > 4300 then Inl ValueError
        else
          (case stripped of
             [] \<Rightarrow> Inl ValueError
           | c # cs \<Rightarrow>
               if c = CHR ''-'' then
                 (case int_digits 0 False cs of
                    None \<Rightarrow> Inl ValueError | Some n \<Rightarrow> Inr (- int n))
               else if c = CHR ''+'' then
                 (case int_digits 0 False cs of
                    None \<Rightarrow> Inl ValueError | Some n \<Rightarrow> Inr (int n))
               else
                 (case int_digits 0 False (c # cs) of
                    None \<Rightarrow> Inl ValueError | Some n \<Rightarrow> Inr (int n))))"

fun py_int :: "jvalue \<Rightarrow> py_error + int" where
  "py_int (Atom ANone) = Inl TypeError"
| "py_int (Atom (ABool b)) = Inr (if b then 1 else 0)"
| "py_int (Atom (AInt n)) = Inr n"
| "py_int (Atom (AStr s)) = int_of_str s"
| "py_int (Many xs) = Inl TypeError"

text \<open>
  Equality of dictionary keys: \<^verbatim>\<open>True == 1\<close> and \<^verbatim>\<open>False == 0\<close>; values of different kinds
  are otherwise unequal.
\<close>

fun py_eq :: "atom \<Rightarrow> atom \<Rightarrow> bool" where
  "py_eq (ABool a) (AInt n) = (n = (if a then 1 else 0))"
| "py_eq (AInt n) (ABool a) = (n = (if a then 1 else 0))"
| "py_eq a b = (a = b)"

section \<open>Tally fields and the field mapping layer\<close>

text \<open>
  A submitted field is a JSON object with the members \<^verbatim>\<open>key\<close>, \<^verbatim>\<open>label\<close>, \<^verbatim>\<open>value\<close>,
  \<^verbatim>\<open>type\<close> and \<^verbatim>\<open>options\<close>. The code reads each with a default (\<^verbatim>\<open>""\<close>, \<^verbatim>\<open>""\<close>,
  \<^verbatim>\<open>None\<close>, \<^verbatim>\<open>""\<close>, \<^verbatim>\<open>[]\<close>), so an absent member is its default here. An option is an
  object with an \<^verbatim>\<open>id\<close> and a \<^verbatim>\<open>text\<close>.
\<close>

record tally_option =
  opt_id :: atom
  opt_text :: string

record tally_field =
  f_key :: string
  f_label :: string
  f_value :: jvalue
  f_type :: string
  f_options :: "tally_option list"

type_synonym field_map = "(string \<times> string list) list"

definition SIGNUP_FIELD_MAP :: field_map where
  "SIGNUP_FIELD_MAP =
    [(''registration_id'', [''registration_id'', ''registrationId'', ''Registration ID'']),
     (''event_id'', [''event_id'', ''eventId'', ''Event ID'']),
     (''phone'', [''phone'', ''Phone'', ''phone_number'', ''Phone Number'', ''Mobile'']),
     (''email'', [''email'', ''Email'', ''email_address'', ''Email Address'']),
     (''full_name'', [''full_name'', ''name'', ''Name'', ''Full Name'', ''Your Name''])]"

definition FORM_FIELD_MAP :: field_map where
  "FORM_FIELD_MAP =
    [(''first_name'', [''question_EQROMA'', ''What's your first name?'']),
     (''phone'', [''question_rA4Zvp'', ''Whats your phone number?'']),
     (''first_time'', [''question_4x6bzd'', ''First time at Stranger Beers?'']),
     (''age'', [''question_72AkM6'', ''How old are you?'']),
     (''gender'', [''question_jQRVvY'', ''How do you identify?'']),
     (''country'', [''question_62lBMo'', ''Where are you from'']),
     (''background'', [''question_ALgXyo'', ''What's your background'']),
     (''creative_expression_score'', [''question_2NW67g'', ''creative expression'']),
     (''social_anxiety_score'', [''question_xaqWvE'', ''feel nervous'']),
     (''emotional_intuition_score'', [''question_NWjZdN'', ''emotional intuition'']),
     (''solitary_preference_score'', [''question_Z67BDA'', ''solitary hobbies'']),
     (''interests_active_outdoors'', [''question_qArlv8'', ''Active & Outdoors'']),
     (''interests_creativity'', [''question_Q5ZQkl'', ''Creativity & Expression'']),
     (''interests_intellectual'', [''question_9DkKMK'', ''Intellectual & Curious'']),
     (''interests_food_social'', [''question_eeJXvJ'', ''Food & Social'']),
     (''interests_games'', [''question_W5W71L'', ''Games & Collecting'']),
     (''interests_mind_self'', [''question_aYLMvW'', ''Mind & Self'']),
     (''mbti'', [''question_bxpJv0'', ''MBTI'']),
     (''optional_note'', [''question_BkyRe4'', ''One last''])]"

definition PAYMENT_FIELD_MAP :: field_map where
  "PAYMENT_FIELD_MAP =
    [(''registration_id'', [''registration_id'', ''registrationId'', ''Registration ID'']),
     (''event_id'', [''event_id'', ''eventId'', ''Event ID'']),
     (''phone'', [''phone'', ''Phone'', ''phone_number'', ''Phone Number'', ''Mobile'',
                  ''What's the phone number you signed up with?'']),
     (''email'', [''email'', ''Email'', ''email_address'', ''Email Address'',
                  ''Reserve your drink! (email)''])]"

subsection \<open>\<^verbatim>\<open>_normalize_value\<close>\<close>

fun normalize_value :: "jvalue \<Rightarrow> string option" where
  "normalize_value (Atom ANone) = None"
| "normalize_value (Atom (AStr s)) =
     (let stripped = strip s in if stripped \<noteq> [] then Some stripped else None)"
| "normalize_value (Many xs) =
     (let non_empty = map (\<lambda>v. strip (py_str v)) (filter truthy xs)
      in if non_empty \<noteq> [] then Some (join '', '' non_empty) else None)"
| "normalize_value (Atom a) =
     (let s = strip (py_str a) in if s \<noteq> [] then Some s else None)"

subsection \<open>\<^verbatim>\<open>extract_field_value\<close>\<close>

text \<open>
  The two dictionaries \<^verbatim>\<open>by_key\<close> and \<^verbatim>\<open>by_label\<close> are filled in one pass over the fields; a
  later field overwrites an earlier one under the same lowered key or label, and a field with
  an empty key (label) is not entered under its key (label).
\<close>

definition build_by_key :: "tally_field list \<Rightarrow> (string \<rightharpoonup> jvalue)" where
  "build_by_key flds =
     fold (\<lambda>field by_key.
             if f_key field \<noteq> [] then by_key(lower (f_key field) \<mapsto> f_value field) else by_key)
          flds Map.empty"

definition build_by_label :: "tally_field list \<Rightarrow> (string \<rightharpoonup> jvalue)" where
  "build_by_label flds =
     fold (\<lambda>field by_label.
             if f_label field \<noteq> [] then by_label(lower (f_label field) \<mapsto> f_value field)
             else by_label)
          flds Map.empty"

text \<open>The search loop: the first candidate found in either index ends the search.\<close>

fun search_candidates ::
  "(string \<rightharpoonup> jvalue) \<Rightarrow> (string \<rightharpoonup> jvalue) \<Rightarrow> string list \<Rightarrow> string option" where
  "search_candidates by_key by_label [] = None"
| "search_candidates by_key by_label (candidate # rest) =
     (let candidate_lower = lower candidate in
        case by_key candidate_lower of
          Some v \<Rightarrow> normalize_value v
        | None \<Rightarrow>
            (case by_label candidate_lower of
               Some v \<Rightarrow> normalize_value v
             | None \<Rightarrow> search_candidates by_key by_label rest))"

definition extract_field_value :: "tally_field list \<Rightarrow> string \<Rightarrow> field_map \<Rightarrow> string option" where
  "extract_field_value flds logical_name fmap =
     (let possible_keys = (case map_of fmap logical_name of None \<Rightarrow> [] | Some ks \<Rightarrow> ks) in
        if possible_keys = [] then None
        else search_candidates (build_by_key flds) (build_by_label flds) possible_keys)"

subsection \<open>\<^verbatim>\<open>_resolve_option_text\<close>\<close>

text \<open>
  \<^verbatim>\<open>option_lookup\<close> is a dictionary from option ids to option texts, built in the order of the
  options: a later option overwrites an earlier one with an equal id.
\<close>

fun option_lookup :: "tally_option list \<Rightarrow> atom \<Rightarrow> string option" where
  "option_lookup [] v = None"
| "option_lookup (opt # opts) v =
     (case option_lookup opts v of
        Some t \<Rightarrow> Some t
      | None \<Rightarrow> if py_eq (opt_id opt) v then Some (opt_text opt) else None)"

definition resolve_option_text :: "tally_field \<Rightarrow> string option" where
  "resolve_option_text field =
     (let v = f_value field; options = f_options field in
        if \<not> truthy_value v then normalize_value v
        else if options = [] then normalize_value v
        else
          (case v of
             Many xs \<Rightarrow>
               (let texts = map (\<lambda>x. case option_lookup options x of
                                        Some t \<Rightarrow> t | None \<Rightarrow> py_str x) xs
                in if texts \<noteq> [] then Some (join '', '' texts) else None)
           | Atom a \<Rightarrow>
               (case option_lookup options a of
                  Some t \<Rightarrow> Some t
                | None \<Rightarrow> normalize_value v)))"

subsection \<open>\<^verbatim>\<open>extract_form_fields\<close>\<close>

text \<open>
  \<^verbatim>\<open>ExtractedFormFields\<close> has one attribute per entry of \<^verbatim>\<open>FORM_FIELD_MAP\<close>, each \<^verbatim>\<open>None\<close> by
  default, and the code writes them by name with \<^verbatim>\<open>setattr\<close>: it is a map from attribute
  names to values here.
\<close>

type_synonym ExtractedFormFields = "string \<Rightarrow> atom"

definition empty_form_fields :: ExtractedFormFields where
  "empty_form_fields = (\<lambda>_. ANone)"

text \<open>The only index of the full-profile extraction: fields by lowered key, last one wins.\<close>

definition fields_by_key :: "tally_field list \<Rightarrow> (string \<rightharpoonup> tally_field)" where
  "fields_by_key flds = fold (\<lambda>f m. m(lower (f_key f) \<mapsto> f)) flds Map.empty"

fun atom_of :: "string option \<Rightarrow> atom" where
  "atom_of None = ANone"
| "atom_of (Some s) = AStr s"

text \<open>The local \<^verbatim>\<open>value\<close> after the dispatch on the field type.\<close>

definition typed_value :: "tally_field \<Rightarrow> py_error + atom" where
  "typed_value field =
     (let field_type = f_type field in
        if field_type \<in> {''MULTIPLE_CHOICE'', ''DROPDOWN'', ''MULTI_SELECT''} then
          Inr (atom_of (resolve_option_text field))
        else if field_type = ''LINEAR_SCALE'' then
          (let raw_value = f_value field in
             if raw_value \<noteq> Atom ANone then
               (case py_int raw_value of Inl e \<Rightarrow> Inl e | Inr n \<Rightarrow> Inr (AInt n))
             else Inr ANone)
        else Inr (atom_of (normalize_value (f_value field))))"

text \<open>What \<^verbatim>\<open>setattr\<close> stores; \<^verbatim>\<open>isinstance(value, int)\<close> holds of a \<^verbatim>\<open>bool\<close> too.\<close>

definition attr_value :: "string \<Rightarrow> atom \<Rightarrow> atom" where
  "attr_value attr_name v =
     (if endswith attr_name ''_score'' then
        (case v of AInt n \<Rightarrow> AInt n | ABool b \<Rightarrow> ABool b | _ \<Rightarrow> ANone)
      else
        (case v of AStr s \<Rightarrow> AStr s | _ \<Rightarrow> if truthy v then AStr (py_str v) else ANone))"

text \<open>
  The inner loop over the candidates of one attribute: the first candidate that is a key of
  the index is used and ends the loop (\<^verbatim>\<open>break\<close>). \<open>None\<close> means that no candidate was a key
  and the attribute keeps its default.
\<close>

fun extract_attr ::
  "(string \<rightharpoonup> tally_field) \<Rightarrow> string \<Rightarrow> string list \<Rightarrow> py_error + atom option" where
  "extract_attr by_key attr_name [] = Inr None"
| "extract_attr by_key attr_name (key # keys) =
     (case by_key (lower key) of
        Some field \<Rightarrow>
          (case typed_value field of
             Inl e \<Rightarrow> Inl e
           | Inr v \<Rightarrow> Inr (Some (attr_value attr_name v)))
      | None \<Rightarrow> extract_attr by_key attr_name keys)"


fun extract_loop ::
  "(string \<rightharpoonup> tally_field) \<Rightarrow> field_map \<Rightarrow> ExtractedFormFields \<Rightarrow>
   py_error + ExtractedFormFields" where
  "extract_loop by_key [] result = Inr result"
| "extract_loop by_key ((attr_name, possible_keys) # rest) result =
     (case extract_attr by_key attr_name possible_keys of
        Inl e \<Rightarrow> Inl e
      | Inr None \<Rightarrow> extract_loop by_key rest result
      | Inr (Some v) \<Rightarrow> extract_loop by_key rest (result(attr_name := v)))"

definition extract_form_fields :: "tally_field list \<Rightarrow> py_error + ExtractedFormFields" where
  "extract_form_fields flds = extract_loop (fields_by_key flds) FORM_FIELD_MAP empty_form_fields"
section \<open>Webhook signature verification\<close>

text \<open>
  The settings that the verifier reads. The keyed hash itself (\<^verbatim>\<open>hmac.new(key, msg,
  hashlib.sha256).digest()\<close>) is a parameter \<open>hmac_sha256\<close> of the functions below; the
  hexadecimal encoding of the digest, the UTF-8 encoding of the secret and the comparison are
  modelled.
\<close>

record Settings =
  cfg_verify_tally_signature :: bool
  cfg_tally_signup_secret :: string
  cfg_tally_payment_secret :: string

type_synonym byte = "8 word"

text \<open>\<^verbatim>\<open>str.encode("utf-8")\<close> on the code points up to U+00FF.\<close>

definition encode_utf8_char :: "char \<Rightarrow> byte list" where
  "encode_utf8_char c = (let n = (of_char c :: nat) in
     if n < 128 then [of_nat n] else [of_nat (192 + n div 64), of_nat (128 + n mod 64)])"

definition encode_utf8 :: "string \<Rightarrow> byte list" where
  "encode_utf8 s = concat (map encode_utf8_char s)"

definition hex_digit :: "nat \<Rightarrow> char" where
  "hex_digit d = ''0123456789abcdef'' ! d"

definition hexdigest :: "byte list \<Rightarrow> string" where
  "hexdigest bs = concat (map (\<lambda>b. [hex_digit (unat b div 16), hex_digit (unat b mod 16)]) bs)"

definition compute_hmac_sha256 ::
  "(byte list \<Rightarrow> byte list \<Rightarrow> byte list) \<Rightarrow> byte list \<Rightarrow> string \<Rightarrow> string" where
  "compute_hmac_sha256 hmac_sha256 body secret = hexdigest (hmac_sha256 (encode_utf8 secret) body)"

text \<open>
  \<^verbatim>\<open>hmac.compare_digest\<close> on two \<^verbatim>\<open>str\<close> arguments: both must be ASCII, otherwise it raises
  \<^verbatim>\<open>TypeError\<close>; on ASCII strings it is equality.
\<close>

definition is_ascii :: "string \<Rightarrow> bool" where
  "is_ascii s = list_all (\<lambda>c. (of_char c :: nat) < 128) s"

definition compare_digest :: "string \<Rightarrow> string \<Rightarrow> py_error + bool" where
  "compare_digest a b = (if is_ascii a \<and> is_ascii b then Inr (a = b) else Inl TypeError)"

text \<open>The result is the pair \<^verbatim>\<open>(is_valid, error_message)\<close>, or the exception raised.\<close>

definition verify_tally_signature ::
  "Settings \<Rightarrow> (byte list \<Rightarrow> byte list \<Rightarrow> byte list) \<Rightarrow> byte list \<Rightarrow> string option \<Rightarrow> string \<Rightarrow>
   py_error + (bool \<times> string option)" where
  "verify_tally_signature settings hmac_sha256 body signature_header form_type =
     (if \<not> cfg_verify_tally_signature settings then Inr (True, None)
      else
        (case (if form_type = ''signup'' then Some (cfg_tally_signup_secret settings)
               else if form_type = ''payment'' then Some (cfg_tally_payment_secret settings)
               else None) of
           None \<Rightarrow> Inr (False, Some (''Unknown form type: '' @ form_type))
         | Some secret \<Rightarrow>
             if secret = [] then
               Inr (False, Some (''Signature verification enabled but no secret configured for ''
                                 @ form_type @ '' form''))
             else
               (case signature_header of
                  None \<Rightarrow> Inr (False, Some ''Missing tally-signature header'')
                | Some header \<Rightarrow>
                    if header = [] then Inr (False, Some ''Missing tally-signature header'')
                    else
                      (let expected_signature = compute_hmac_sha256 hmac_sha256 body secret in
                         case compare_digest header expected_signature of
                           Inl e \<Rightarrow> Inl e
                         | Inr equal \<Rightarrow>
                             if \<not> equal then Inr (False, Some ''Invalid signature'')
                             else Inr (True, None)))))"

section \<open>Phone normalization\<close>

text \<open>
  \<^verbatim>\<open>normalize_phone\<close> delegates to the \<^verbatim>\<open>phonenumbers\<close> package, which is not part of the
  repository. Its three entry points are the fields of a record that the model takes as a
  parameter: \<^verbatim>\<open>parse\<close> (\<open>None\<close> stands for \<^verbatim>\<open>NumberParseException\<close>),
  \<^verbatim>\<open>is_valid_number\<close> and \<^verbatim>\<open>format_number\<close> with the E.164 format.
\<close>

record 'n phonenumbers =
  lib_parse :: "string \<Rightarrow> string \<Rightarrow> 'n option"
  lib_is_valid_number :: "'n \<Rightarrow> bool"
  lib_format_e164 :: "'n \<Rightarrow> string"

definition normalize_phone :: "'n phonenumbers \<Rightarrow> string \<Rightarrow> string \<Rightarrow> string option" where
  "normalize_phone lib phone default_region =
     (if phone = [] then None
      else if strip phone = [] then None
      else
        (case lib_parse lib (strip phone) default_region of
           None \<Rightarrow> None
         | Some parsed \<Rightarrow>
             if \<not> lib_is_valid_number lib parsed then None
             else Some (lib_format_e164 lib parsed)))"

definition is_valid_phone :: "'n phonenumbers \<Rightarrow> string \<Rightarrow> string \<Rightarrow> bool" where
  "is_valid_phone lib phone default_region = (normalize_phone lib phone default_region \<noteq> None)"

section \<open>The durable store\<close>

text \<open>
  The raw payload is kept with the members the code reads: \<^verbatim>\<open>data.formId\<close>,
  \<^verbatim>\<open>data.submissionId\<close>, \<^verbatim>\<open>data.responseId\<close> and \<^verbatim>\<open>data.fields\<close>.
\<close>

type_synonym timestamp = nat

record tally_payload =
  pl_form_id :: string
  pl_submission_id :: "string option"
  pl_response_id :: "string option"
  pl_fields :: "tally_field list"

record Registration =
  registration_id :: string
  event_id :: string
  email :: "string option"
  phone_e164 :: "string option"
  full_name :: "string option"
  signup_payload :: "tally_payload option"
  signup_received_at :: "timestamp option"
  paid :: bool
  paid_at :: "timestamp option"
  payment_payload :: "tally_payload option"
  payment_received_at :: "timestamp option"
  payment_claimed_registration_id :: "string option"
  payment_claimed_phone_e164 :: "string option"
  payment_link_status :: string
  created_at :: timestamp
  updated_at :: timestamp

text \<open>
  The audit tables. A \<^verbatim>\<open>Signup\<close> row has the columns of \<^verbatim>\<open>ExtractedFormFields\<close>; the
  autoincrement keys are the positions in the lists.
\<close>

record Signup =
  su_received_at :: timestamp
  su_columns :: ExtractedFormFields

record Payment =
  pay_arrived_at :: timestamp
  pay_phone :: "string option"
  pay_status :: "string option"
  pay_recognized :: bool

record Store =
  registrations :: "Registration list"
  signups :: "Signup list"
  payments :: "Payment list"

definition empty_store :: Store where
  "empty_store = \<lparr>registrations = [], signups = [], payments = []\<rparr>"

text \<open>
  What a request takes from outside: the clock of the process (\<^verbatim>\<open>datetime.now\<close>), the clock of
  the store (\<^verbatim>\<open>func.now()\<close>, the server default of the timestamp columns) and the hexadecimal
  forms of the two \<^verbatim>\<open>uuid.uuid4()\<close> values that a signup may draw.
\<close>

record Env =
  now :: timestamp
  db_now :: timestamp
  uuid_reg :: string
  uuid_evt :: string

text \<open>\<^verbatim>\<open>session.get(Registration, registration_id)\<close>: the row with that primary key.\<close>

definition get_registration :: "Store \<Rightarrow> string \<Rightarrow> Registration option" where
  "get_registration s rid = find (\<lambda>r. registration_id r = rid) (registrations s)"

text \<open>
  A mutated row object is written back under its primary key when the unit of work
  commits.
\<close>

fun replace_row :: "Registration \<Rightarrow> Registration list \<Rightarrow> Registration list" where
  "replace_row r' [] = []"
| "replace_row r' (r # rs) =
     (if registration_id r = registration_id r' then r' # rs else r # replace_row r' rs)"

section \<open>Parsed records\<close>

record ParsedSignupData =
  ps_form_id :: string
  ps_submission_id :: "string option"
  ps_event_id :: "string option"
  ps_registration_id :: "string option"
  ps_phone_raw :: "string option"
  ps_phone_e164 :: "string option"
  ps_email :: "string option"
  ps_full_name :: "string option"
  ps_raw_payload :: tally_payload
  ps_form_fields :: "ExtractedFormFields option"

record ParsedPaymentData =
  pp_form_id :: string
  pp_submission_id :: "string option"
  pp_event_id :: "string option"
  pp_registration_id :: "string option"
  pp_phone_raw :: "string option"
  pp_phone_e164 :: "string option"
  pp_email :: "string option"
  pp_raw_payload :: tally_payload

section \<open>Signup processing\<close>

record SignupResult =
  sr_success :: bool
  sr_registration_id :: "string option"
  sr_is_new :: bool
  sr_error_message :: "string option"

text \<open>\<^verbatim>\<open>_log_submission\<close> of the signup service.\<close>

definition signup_log_submission :: "Env \<Rightarrow> Store \<Rightarrow> ParsedSignupData \<Rightarrow> Store" where
  "signup_log_submission env s parsed =
     (let submission =
        \<lparr>su_received_at = db_now env,
         su_columns = (case ps_form_fields parsed of None \<Rightarrow> empty_form_fields | Some ff \<Rightarrow> ff)\<rparr>
      in s\<lparr>signups := signups s @ [submission]\<rparr>)"

text \<open>
  The blocks of \<^verbatim>\<open>process_signup\<close>: the two identifiers (the submitted one, or a generated
  one when it is \<^verbatim>\<open>None\<close> or empty), the update of an existing row and the new row.
\<close>

definition signup_registration_id :: "Env \<Rightarrow> ParsedSignupData \<Rightarrow> string" where
  "signup_registration_id env parsed =
     (case ps_registration_id parsed of
        None \<Rightarrow> ''REG-'' @ upper (take 12 (uuid_reg env))
      | Some rid \<Rightarrow> if rid = [] then ''REG-'' @ upper (take 12 (uuid_reg env)) else rid)"

definition signup_event_id :: "Env \<Rightarrow> ParsedSignupData \<Rightarrow> string" where
  "signup_event_id env parsed =
     (case ps_event_id parsed of
        None \<Rightarrow> ''EVT-'' @ upper (take 8 (uuid_evt env))
      | Some eid \<Rightarrow> if eid = [] then ''EVT-'' @ upper (take 8 (uuid_evt env)) else eid)"

definition update_existing ::
  "Env \<Rightarrow> ParsedSignupData \<Rightarrow> string \<Rightarrow> Registration \<Rightarrow> Registration" where
  "update_existing env parsed eid existing_registration =
     existing_registration\<lparr>event_id := eid,
                            email := ps_email parsed,
                            phone_e164 := ps_phone_e164 parsed,
                            full_name := ps_full_name parsed,
                            signup_payload := Some (ps_raw_payload parsed),
                            signup_received_at := Some (now env),
                            updated_at := now env\<rparr>"

definition new_registration ::
  "Env \<Rightarrow> ParsedSignupData \<Rightarrow> string \<Rightarrow> string \<Rightarrow> Registration" where
  "new_registration env parsed rid eid =
     \<lparr>registration_id = rid,
      event_id = eid,
      email = ps_email parsed,
      phone_e164 = ps_phone_e164 parsed,
      full_name = ps_full_name parsed,
      signup_payload = Some (ps_raw_payload parsed),
      signup_received_at = Some (now env),
      paid = False,
      paid_at = None,
      payment_payload = None,
      payment_received_at = None,
      payment_claimed_registration_id = None,
      payment_claimed_phone_e164 = None,
      payment_link_status = ''unpaid'',
      created_at = db_now env,
      updated_at = db_now env\<rparr>"

text \<open>
  \<^verbatim>\<open>process_signup\<close>. The argument \<^verbatim>\<open>body_hash\<close>, which the code never reads, is left out.
\<close>

definition process_signup :: "Env \<Rightarrow> Store \<Rightarrow> ParsedSignupData \<Rightarrow> SignupResult \<times> Store" where
  "process_signup env s parsed =
     (let rid = signup_registration_id env parsed;
          eid = signup_event_id env parsed;
          existing_registration = get_registration s rid;
          is_new = (existing_registration = None);
          s1 =
            (case existing_registration of
               Some existing \<Rightarrow>
                 s\<lparr>registrations :=
                     replace_row (update_existing env parsed eid existing) (registrations s)\<rparr>
             | None \<Rightarrow>
                 s\<lparr>registrations :=
                     registrations s @ [new_registration env parsed rid eid]\<rparr>)
      in (\<lparr>sr_success = True, sr_registration_id = Some rid, sr_is_new = is_new,
           sr_error_message = None\<rparr>,
          signup_log_submission env s1 parsed))"

section \<open>Payment processing\<close>

datatype PaymentLinkStatus =
  MATCHED_BY_REGISTRATION_ID | MATCHED_BY_PHONE | ORPHAN_PAYMENT | AMBIGUOUS_PHONE_MATCH

fun status_value :: "PaymentLinkStatus \<Rightarrow> string" where
  "status_value MATCHED_BY_REGISTRATION_ID = ''matched_by_registration_id''"
| "status_value MATCHED_BY_PHONE = ''matched_by_phone''"
| "status_value ORPHAN_PAYMENT = ''orphan_payment''"
| "status_value AMBIGUOUS_PHONE_MATCH = ''ambiguous_phone_match''"

record PaymentResult =
  pr_success :: bool
  pr_registration_id :: "string option"
  pr_link_status :: "PaymentLinkStatus option"
  pr_is_emergency :: bool
  pr_error_message :: "string option"

text \<open>\<^verbatim>\<open>_mark_paid\<close>.\<close>

definition mark_paid ::
  "Registration \<Rightarrow> ParsedPaymentData \<Rightarrow> timestamp \<Rightarrow> PaymentLinkStatus \<Rightarrow> Registration" where
  "mark_paid registration parsed t status =
     registration\<lparr>paid := True,
                  paid_at := Some t,
                  payment_payload := Some (pp_raw_payload parsed),
                  payment_received_at := Some t,
                  payment_claimed_registration_id := pp_registration_id parsed,
                  payment_claimed_phone_e164 := pp_phone_e164 parsed,
                  payment_link_status := status_value status,
                  updated_at := t\<rparr>"

text \<open>\<^verbatim>\<open>_find_by_event_and_phone\<close>: a \<^verbatim>\<open>NULL\<close> phone equals nothing.\<close>

definition find_by_event_and_phone :: "Store \<Rightarrow> string \<Rightarrow> string \<Rightarrow> Registration list" where
  "find_by_event_and_phone s eid phone =
     filter (\<lambda>r. event_id r = eid \<and> phone_e164 r = Some phone) (registrations s)"

text \<open>\<^verbatim>\<open>_check_phone_in_signups\<close>.\<close>

definition check_phone_in_signups :: "Store \<Rightarrow> string \<Rightarrow> bool" where
  "check_phone_in_signups s phone =
     list_ex (\<lambda>row. su_columns row ''phone'' = AStr phone) (signups s)"

text \<open>
  \<^verbatim>\<open>repr\<close> of a string and \<^verbatim>\<open>str\<close> of a list, which the audit status needs when a list value
  comes without options.
\<close>

definition repr_quote :: "string \<Rightarrow> char" where
  "repr_quote s = (if CHR 0x27 \<in> set s \<and> CHR 0x22 \<notin> set s then CHR 0x22 else CHR 0x27)"

definition repr_char :: "char \<Rightarrow> char \<Rightarrow> string" where
  "repr_char q c = (let n = (of_char c :: nat) in
     if c = q then [CHR 0x5C, c]
     else if c = CHR 0x5C then [CHR 0x5C, c]
     else if n = 9 then [CHR 0x5C, CHR ''t'']
     else if n = 10 then [CHR 0x5C, CHR ''n'']
     else if n = 13 then [CHR 0x5C, CHR ''r'']
     else if n < 32 \<or> n = 127 \<or> (128 \<le> n \<and> n \<le> 160) \<or> n = 173
       then [CHR 0x5C, CHR ''x'', hex_digit (n div 16), hex_digit (n mod 16)]
     else [c])"

fun py_repr :: "atom \<Rightarrow> string" where
  "py_repr (AStr s) = (let q = repr_quote s in q # concat (map (repr_char q) s) @ [q])"
| "py_repr a = py_str a"

fun py_str_value :: "jvalue \<Rightarrow> string" where
  "py_str_value (Atom a) = py_str a"
| "py_str_value (Many xs) = ''['' @ join '', '' (map py_repr xs) @ '']''"

text \<open>
  The audit status: the first field whose label contains \<^verbatim>\<open>All done\<close> decides, and the scan
  stops there.
\<close>

definition audit_status :: "tally_field list \<Rightarrow> string option" where
  "audit_status flds =
     (case find (\<lambda>field. contains ''All done'' (f_label field)) flds of
        None \<Rightarrow> None
      | Some field \<Rightarrow>
          (case f_value field of
             Many xs \<Rightarrow>
               if f_options field \<noteq> [] then
                 Some (join '', ''
                         (map (\<lambda>v. case option_lookup (f_options field) v of
                                      Some t \<Rightarrow> t | None \<Rightarrow> py_str v) xs))
               else if xs \<noteq> [] then Some (py_str_value (Many xs)) else None
           | Atom a \<Rightarrow> if truthy a then Some (py_str a) else None))"

text \<open>\<^verbatim>\<open>_log_submission\<close> of the payment service.\<close>

definition payment_log_submission :: "Env \<Rightarrow> Store \<Rightarrow> ParsedPaymentData \<Rightarrow> Store" where
  "payment_log_submission env s parsed =
     (let phone = (if present (pp_phone_e164 parsed) then pp_phone_e164 parsed
                   else pp_phone_raw parsed);
          recognized = (case phone of
                          None \<Rightarrow> False
                        | Some p \<Rightarrow> if p = [] then False else check_phone_in_signups s p);
          status = audit_status (pl_fields (pp_raw_payload parsed));
          submission = \<lparr>pay_arrived_at = db_now env, pay_phone = phone, pay_status = status,
                        pay_recognized = recognized\<rparr>
      in s\<lparr>payments := payments s @ [submission]\<rparr>)"

text \<open>
  \<^verbatim>\<open>process_payment\<close>. The two \<^verbatim>\<open>print\<close> calls and the log lines write to the console
  only; the argument \<^verbatim>\<open>body_hash\<close> is never read. Both are left out.
\<close>

definition process_payment :: "Env \<Rightarrow> Store \<Rightarrow> ParsedPaymentData \<Rightarrow> PaymentResult \<times> Store" where
  "process_payment env s parsed =
     (if \<not> present (pp_registration_id parsed) \<and> \<not> present (pp_phone_e164 parsed) then
        (\<lparr>pr_success = False, pr_registration_id = None, pr_link_status = None,
          pr_is_emergency = True,
          pr_error_message = Some ''Payment has neither registration_id nor valid phone number''\<rparr>,
         s)
      else
        (case (case pp_registration_id parsed of
                 None \<Rightarrow> None
               | Some rid \<Rightarrow> if rid = [] then None else get_registration s rid) of
           Some registration \<Rightarrow>
             (\<lparr>pr_success = True, pr_registration_id = Some (registration_id registration),
               pr_link_status = Some MATCHED_BY_REGISTRATION_ID, pr_is_emergency = False,
               pr_error_message = None\<rparr>,
              payment_log_submission env
                (s\<lparr>registrations :=
                     replace_row (mark_paid registration parsed (now env) MATCHED_BY_REGISTRATION_ID)
                       (registrations s)\<rparr>)
                parsed)
         | None \<Rightarrow>
             (let orphan =
                    (\<lparr>pr_success = True, pr_registration_id = None,
                      pr_link_status = Some ORPHAN_PAYMENT, pr_is_emergency = True,
                      pr_error_message = Some ''No matching registration found for payment''\<rparr>,
                     payment_log_submission env s parsed)
              in
                case (pp_event_id parsed, pp_phone_e164 parsed) of
                  (Some eid, Some phone) \<Rightarrow>
                    if eid = [] then orphan
                    else if phone = [] then orphan
                    else
                      (let matches = find_by_event_and_phone s eid phone in
                         if length matches = 1 then
                           (let registration = hd matches in
                              (\<lparr>pr_success = True,
                                pr_registration_id = Some (registration_id registration),
                                pr_link_status = Some MATCHED_BY_PHONE, pr_is_emergency = False,
                                pr_error_message = None\<rparr>,
                               payment_log_submission env
                                 (s\<lparr>registrations :=
                                      replace_row
                                        (mark_paid registration parsed (now env) MATCHED_BY_PHONE)
                                        (registrations s)\<rparr>)
                                 parsed))
                         else if length matches > 1 then
                           (\<lparr>pr_success = True, pr_registration_id = None,
                             pr_link_status = Some AMBIGUOUS_PHONE_MATCH, pr_is_emergency = True,
                             pr_error_message =
                               Some (''Multiple registrations found for phone '' @ phone)\<rparr>,
                            payment_log_submission env s parsed)
                         else orphan)
                | _ \<Rightarrow> orphan)))"

section \<open>Sequences of requests\<close>

text \<open>
  Each webhook is one unit of work on the store; the handler of a request commits what the
  service has done (a payment that fails validation has changed nothing).
\<close>

datatype request =
  SignupRequest Env ParsedSignupData
| PaymentRequest Env ParsedPaymentData

fun handle :: "Store \<Rightarrow> request \<Rightarrow> Store" where
  "handle s (SignupRequest env parsed) = snd (process_signup env s parsed)"
| "handle s (PaymentRequest env parsed) = snd (process_payment env s parsed)"

definition run :: "Store \<Rightarrow> request list \<Rightarrow> Store" where
  "run s requests = foldl handle s requests"

section \<open>Example data\<close>

text \<open>The records of the scenarios against which the results below are instantiated.\<close>

definition ex_payload :: tally_payload where
  "ex_payload = \<lparr>pl_form_id = ''form'', pl_submission_id = None, pl_response_id = None,
                  pl_fields = []\<rparr>"

definition ex_env1 :: Env where
  "ex_env1 = \<lparr>now = 1, db_now = 1, uuid_reg = ''0123456789abcdef0123456789abcdef'',
               uuid_evt = ''fedcba9876543210fedcba9876543210''\<rparr>"

definition ex_env2 :: Env where
  "ex_env2 = \<lparr>now = 2, db_now = 2, uuid_reg = ''aaaa456789abcdef0123456789abcdef'',
               uuid_evt = ''bbbbba9876543210fedcba9876543210''\<rparr>"

definition ex_signup :: ParsedSignupData where
  "ex_signup = \<lparr>ps_form_id = ''form'', ps_submission_id = None, ps_event_id = Some ''EVT-1'',
                 ps_registration_id = Some ''R1'', ps_phone_raw = Some ''(415) 555-1234'',
                 ps_phone_e164 = Some ''+14155551234'', ps_email = None,
                 ps_full_name = Some ''Ann'', ps_raw_payload = ex_payload,
                 ps_form_fields = None\<rparr>"

definition ex_signup_no_id :: ParsedSignupData where
  "ex_signup_no_id = \<lparr>ps_form_id = ''form'', ps_submission_id = None, ps_event_id = None,
                 ps_registration_id = None, ps_phone_raw = None,
                 ps_phone_e164 = None, ps_email = None,
                 ps_full_name = Some ''Ann'', ps_raw_payload = ex_payload,
                 ps_form_fields = None\<rparr>"

definition ex_payment_by_id :: ParsedPaymentData where
  "ex_payment_by_id = \<lparr>pp_form_id = ''pay'', pp_submission_id = None, pp_event_id = None,
                 pp_registration_id = Some ''R1'', pp_phone_raw = None, pp_phone_e164 = None,
                 pp_email = None, pp_raw_payload = ex_payload\<rparr>"

definition ex_payment_by_phone :: ParsedPaymentData where
  "ex_payment_by_phone = \<lparr>pp_form_id = ''pay'', pp_submission_id = None,
                 pp_event_id = Some ''EVT-1'', pp_registration_id = None,
                 pp_phone_raw = Some ''(415) 555-1234'', pp_phone_e164 = Some ''+14155551234'',
                 pp_email = None, pp_raw_payload = ex_payload\<rparr>"

definition ex_payment_unknown_id :: ParsedPaymentData where
  "ex_payment_unknown_id = \<lparr>pp_form_id = ''pay'', pp_submission_id = None,
                 pp_event_id = Some ''EVT-1'', pp_registration_id = Some ''R9'',
                 pp_phone_raw = Some ''(415) 555-1234'', pp_phone_e164 = Some ''+14155551234'',
                 pp_email = None, pp_raw_payload = ex_payload\<rparr>"

definition ex_payment_no_identifiers :: ParsedPaymentData where
  "ex_payment_no_identifiers = \<lparr>pp_form_id = ''pay'', pp_submission_id = None,
                 pp_event_id = Some ''EVT-1'', pp_registration_id = None,
                 pp_phone_raw = Some ''call me'', pp_phone_e164 = None,
                 pp_email = None, pp_raw_payload = ex_payload\<rparr>"

text \<open>A store with one registration, and one with two registrations under the same phone.\<close>

definition ex_store_one :: Store where
  "ex_store_one = snd (process_signup ex_env1 empty_store ex_signup)"

definition ex_store_two :: Store where
  "ex_store_two =
     snd (process_signup ex_env2 ex_store_one (ex_signup\<lparr>ps_registration_id := Some ''R2''\<rparr>))"

text \<open>The store after a signup and the payment that names its registration.\<close>

definition ex_store_paid :: Store where
  "ex_store_paid =
     run empty_store [SignupRequest ex_env1 ex_signup, PaymentRequest ex_env2 ex_payment_by_id]"

section \<open>Results: field extraction\<close>

subsection \<open>Single-field extraction walks the candidates in order, key before label\<close>

lemma find_app:
  "find P (xs @ ys) = (case find P xs of None \<Rightarrow> find P ys | Some x \<Rightarrow> Some x)"
  by (induction xs) simp_all

lemma fold_by_key_last:
  "fold (\<lambda>field by_key.
           if f_key field \<noteq> [] then by_key(lower (f_key field) \<mapsto> f_value field) else by_key)
        flds m k =
   (case find (\<lambda>f. f_key f \<noteq> [] \<and> lower (f_key f) = k) (rev flds) of
      Some f \<Rightarrow> Some (f_value f) | None \<Rightarrow> m k)"
proof (induction flds arbitrary: m)
  case Nil
  then show ?case by simp
next
  case (Cons a flds)
  show ?case
    by (simp only: fold.simps o_apply Cons.IH rev.simps find_app)
       (auto split: option.splits)
qed

lemma build_by_key_last:
  "build_by_key flds k =
     map_option f_value (find (\<lambda>f. f_key f \<noteq> [] \<and> lower (f_key f) = k) (rev flds))"
  by (simp add: build_by_key_def fold_by_key_last split: option.splits)

lemma search_candidates_key_first:
  assumes "\<forall>c' \<in> set pre. by_key (lower c') = None \<and> by_label (lower c') = None"
    and "by_key (lower c) = Some v"
  shows "search_candidates by_key by_label (pre @ c # post) = normalize_value v"
  using assms by (induction pre) simp_all

lemma search_candidates_label_fallback:
  assumes "\<forall>c' \<in> set pre. by_key (lower c') = None \<and> by_label (lower c') = None"
    and "by_key (lower c) = None" and "by_label (lower c) = Some v"
  shows "search_candidates by_key by_label (pre @ c # post) = normalize_value v"
  using assms by (induction pre) simp_all

lemma search_candidates_none:
  assumes "\<forall>c' \<in> set cs. by_key (lower c') = None \<and> by_label (lower c') = None"
  shows "search_candidates by_key by_label cs = None"
  using assms by (induction cs) simp_all


text \<open>
  Claim C6. Field extraction walks the candidates in declared order and checks, for each
  candidate, a case-insensitive key index before a case-insensitive label index, so that a
  field matching only by label is still found; the claim says so of single-field and of
  full-profile extraction. \<^const>\<open>extract_field_value\<close> does (the three lemmas above), but
  \<^const>\<open>extract_form_fields\<close> builds a key index only: on the field below, whose label is
  the second candidate of \<^verbatim>\<open>age\<close> and whose key is no candidate, the full-profile
  extraction leaves \<^verbatim>\<open>age\<close> absent while the single-field extraction over the same mapping
  finds the value.
\<close>

theorem extract_form_fields_no_label_index:
  "(case extract_form_fields
           [\<lparr>f_key = ''question_x1'', f_label = ''How old are you?'',
             f_value = Atom (AStr ''42''), f_type = ''INPUT_TEXT'', f_options = []\<rparr>] of
      Inl e \<Rightarrow> False
    | Inr res \<Rightarrow> res ''age'' = ANone)
   \<and> extract_field_value
        [\<lparr>f_key = ''question_x1'', f_label = ''How old are you?'',
          f_value = Atom (AStr ''42''), f_type = ''INPUT_TEXT'', f_options = []\<rparr>]
        ''age'' FORM_FIELD_MAP = Some ''42''"
  by (simp add: extract_form_fields_def fields_by_key_def FORM_FIELD_MAP_def lower_def
      py_lower_char_def empty_form_fields_def extract_field_value_def build_by_key_def
      build_by_label_def strip_def py_isspace_def)

subsection \<open>Score attributes\<close>


















section \<open>Results: signature verification\<close>

lemma hex_digit_ascii: "d < 16 \<Longrightarrow> (of_char (hex_digit d) :: nat) < 128"
proof -
  assume d: "d < 16"
  have all: "\<forall>c \<in> set ''0123456789abcdef''. (of_char c :: nat) < 128"
    by simp
  from d have "hex_digit d \<in> set ''0123456789abcdef''"
    unfolding hex_digit_def by (intro nth_mem) simp
  with all show ?thesis by blast
qed

lemma hexdigest_ascii: "is_ascii (hexdigest bs)"
proof (induction bs)
  case Nil
  then show ?case by (simp add: is_ascii_def hexdigest_def)
next
  case (Cons b bs)
  have "unat b < 256" using unsigned_less [of b, where ?'a = nat] by simp
  then have "unat b div 16 < 16" by simp
  moreover have "unat b mod 16 < 16" by simp
  ultimately show ?case
    using Cons by (simp add: is_ascii_def hexdigest_def hex_digit_ascii)
qed

lemma verify_disabled:
  "\<not> cfg_verify_tally_signature settings \<Longrightarrow>
   verify_tally_signature settings H body header form_type = Inr (True, None)"
  by (simp add: verify_tally_signature_def)

lemma verify_signup_enabled:
  assumes "cfg_verify_tally_signature settings"
  shows "verify_tally_signature settings H body header ''signup'' =
    (if cfg_tally_signup_secret settings = [] then
       Inr (False, Some ''Signature verification enabled but no secret configured for signup form'')
     else if \<not> present header then Inr (False, Some ''Missing tally-signature header'')
     else if \<not> is_ascii (the header) then Inl TypeError
     else if the header = compute_hmac_sha256 H body (cfg_tally_signup_secret settings)
       then Inr (True, None)
     else Inr (False, Some ''Invalid signature''))"
  using assms hexdigest_ascii
  by (cases header)
     (auto simp: verify_tally_signature_def compare_digest_def compute_hmac_sha256_def)

lemma verify_payment_enabled:
  assumes "cfg_verify_tally_signature settings"
  shows "verify_tally_signature settings H body header ''payment'' =
    (if cfg_tally_payment_secret settings = [] then
       Inr (False, Some ''Signature verification enabled but no secret configured for payment form'')
     else if \<not> present header then Inr (False, Some ''Missing tally-signature header'')
     else if \<not> is_ascii (the header) then Inl TypeError
     else if the header = compute_hmac_sha256 H body (cfg_tally_payment_secret settings)
       then Inr (True, None)
     else Inr (False, Some ''Invalid signature''))"
  using assms hexdigest_ascii
  by (cases header)
     (auto simp: verify_tally_signature_def compare_digest_def compute_hmac_sha256_def)

text \<open>
  Claim C9. With verification enabled and the secret configured, a header that differs from
  the expected signature is to be rejected with the invalid-signature reason; the docstring
  of \<^verbatim>\<open>verify_tally_signature\<close> promises the pair \<^verbatim>\<open>(False, error_message)\<close> whenever
  verification fails. On a header with a code point beyond ASCII (here U+00E9), whatever the
  body and the keyed hash, \<^verbatim>\<open>hmac.compare_digest\<close> raises and the function returns no pair.
  The two lemmas above give the outcome in every other case.
\<close>

theorem verify_tally_signature_non_ascii_header:
  "verify_tally_signature
     \<lparr>cfg_verify_tally_signature = True, cfg_tally_signup_secret = ''s3cret'',
      cfg_tally_payment_secret = ''''\<rparr>
     H body (Some [CHR 0xE9]) ''signup'' = Inl TypeError"
  by (simp add: verify_tally_signature_def compare_digest_def is_ascii_def)

section \<open>Results: phone normalization\<close>

text \<open>
  What the code itself decides, whatever the package does: empty and whitespace-only input
  is absent, and so is every input that the package fails to parse or finds invalid.
\<close>

lemma normalize_phone_blank:
  "normalize_phone lib [] region = None"
  "list_all py_isspace phone \<Longrightarrow> normalize_phone lib phone region = None"
proof -
  show "normalize_phone lib [] region = None"
    by (simp add: normalize_phone_def)
  assume "list_all py_isspace phone"
  then have d: "dropWhile py_isspace phone = []"
    by (simp add: list_all_iff)
  have "strip phone = []"
    by (simp only: strip_def d rev.simps dropWhile.simps)
  then show "normalize_phone lib phone region = None"
    by (simp add: normalize_phone_def)
qed

lemma normalize_phone_failures:
  "lib_parse lib (strip phone) region = None \<Longrightarrow> normalize_phone lib phone region = None"
  "lib_parse lib (strip phone) region = Some n \<Longrightarrow> \<not> lib_is_valid_number lib n \<Longrightarrow>
     normalize_phone lib phone region = None"
  by (simp_all add: normalize_phone_def)

text \<open>
  Idempotence reduces to a property of the package: that parsing the E.164 form of a valid
  number, under the same default region, gives a valid number with the same E.164 form.
\<close>

lemma normalize_phone_idempotent_if:
  assumes "normalize_phone lib x region = Some y"
    and "\<And>n. lib_is_valid_number lib n \<Longrightarrow>
           \<exists>n'. lib_parse lib (strip (lib_format_e164 lib n)) region = Some n' \<and>
                lib_is_valid_number lib n' \<and> lib_format_e164 lib n' = lib_format_e164 lib n"
    and "\<And>n. lib_is_valid_number lib n \<Longrightarrow> strip (lib_format_e164 lib n) \<noteq> []"
  shows "normalize_phone lib y region = Some y"
proof -
  from assms(1) obtain n where n: "lib_is_valid_number lib n" and y: "y = lib_format_e164 lib n"
    by (auto simp: normalize_phone_def split: if_splits option.splits)
  from assms(2) [OF n] obtain n' where
    "lib_parse lib (strip y) region = Some n'" "lib_is_valid_number lib n'"
    "lib_format_e164 lib n' = y"
    using y by auto
  moreover from assms(3) [OF n] have "strip y \<noteq> []" "y \<noteq> []"
    using y by (auto simp: strip_def)
  ultimately show ?thesis by (simp add: normalize_phone_def)
qed

section \<open>Results: the store and the two services\<close>

subsection \<open>Rows and their primary keys\<close>

lemma find_registration_id:
  "find (\<lambda>r. registration_id r = rid) rows = Some r \<Longrightarrow> registration_id r = rid \<and> r \<in> set rows"
  by (induction rows) (auto split: if_splits)

lemma get_registration_id:
  "get_registration s rid = Some r \<Longrightarrow> registration_id r = rid \<and> r \<in> set (registrations s)"
  unfolding get_registration_def by (rule find_registration_id)

lemma length_replace_row: "length (replace_row r' rows) = length rows"
  by (induction rows) simp_all

lemma ids_replace_row: "map registration_id (replace_row r' rows) = map registration_id rows"
  by (induction rows) simp_all

lemma set_replace_row: "set (replace_row r' rows) \<subseteq> insert r' (set rows)"
  by (induction rows) auto

lemma find_replace_row_same:
  "find (\<lambda>r. registration_id r = rid) rows = Some r \<Longrightarrow> registration_id r' = rid \<Longrightarrow>
   find (\<lambda>r. registration_id r = rid) (replace_row r' rows) = Some r'"
  by (induction rows) (auto split: if_splits)

lemma find_replace_row_other:
  "rid \<noteq> registration_id r' \<Longrightarrow>
   find (\<lambda>r. registration_id r = rid) (replace_row r' rows) = find (\<lambda>r. registration_id r = rid) rows"
  by (induction rows) auto

lemma find_append_new:
  "find (\<lambda>r. registration_id r = rid) rows = None \<Longrightarrow>
   find (\<lambda>r. registration_id r = rid') (rows @ [r']) =
     (if rid' = registration_id r' \<and> find (\<lambda>r. registration_id r = rid') rows = None then Some r'
      else find (\<lambda>r. registration_id r = rid') rows)"
  by (induction rows) (auto split: if_splits)

lemma payment_log_frame:
  "registrations (payment_log_submission env s parsed) = registrations s \<and>
   signups (payment_log_submission env s parsed) = signups s \<and>
   (\<exists>row. payments (payment_log_submission env s parsed) = payments s @ [row])"
  by (simp add: payment_log_submission_def Let_def)

lemma signup_log_frame:
  "registrations (signup_log_submission env s parsed) = registrations s \<and>
   payments (signup_log_submission env s parsed) = payments s \<and>
   (\<exists>row. signups (signup_log_submission env s parsed) = signups s @ [row])"
  by (simp add: signup_log_submission_def Let_def)

lemma process_payment_rejected:
  assumes "\<not> present (pp_registration_id parsed)" "\<not> present (pp_phone_e164 parsed)"
  shows "process_payment env s parsed =
      (\<lparr>pr_success = False, pr_registration_id = None, pr_link_status = None,
          pr_is_emergency = True,
          pr_error_message = Some ''Payment has neither registration_id nor valid phone number''\<rparr>,
         s)"
  using assms by (simp add: process_payment_def)

lemma process_payment_direct:
  assumes "pp_registration_id parsed = Some rid" "rid \<noteq> []" "get_registration s rid = Some registration"
  shows "process_payment env s parsed =
     (\<lparr>pr_success = True, pr_registration_id = Some rid,
               pr_link_status = Some MATCHED_BY_REGISTRATION_ID, pr_is_emergency = False,
               pr_error_message = None\<rparr>,
              payment_log_submission env
                (s\<lparr>registrations :=
                     replace_row (mark_paid registration parsed (now env) MATCHED_BY_REGISTRATION_ID)
                       (registrations s)\<rparr>)
                parsed)"
  using assms get_registration_id [OF assms(3)] by (simp add: process_payment_def)

lemma process_payment_fallthrough:
  assumes "present (pp_registration_id parsed) \<or> present (pp_phone_e164 parsed)"
    and "(case pp_registration_id parsed of None \<Rightarrow> None
               | Some rid \<Rightarrow> if rid = [] then None else get_registration s rid) = None"
  shows "process_payment env s parsed =
    (if present (pp_event_id parsed) \<and> present (pp_phone_e164 parsed) then
       (let matches = find_by_event_and_phone s (the (pp_event_id parsed)) (the (pp_phone_e164 parsed)) in
        if length matches = 1 then
          (\<lparr>pr_success = True, pr_registration_id = Some (registration_id (hd matches)),
            pr_link_status = Some MATCHED_BY_PHONE, pr_is_emergency = False,
            pr_error_message = None\<rparr>,
           payment_log_submission env
             (s\<lparr>registrations :=
                 replace_row (mark_paid (hd matches) parsed (now env) MATCHED_BY_PHONE) (registrations s)\<rparr>)
             parsed)
        else if length matches > 1 then
          (\<lparr>pr_success = True, pr_registration_id = None,
            pr_link_status = Some AMBIGUOUS_PHONE_MATCH, pr_is_emergency = True,
            pr_error_message = Some (''Multiple registrations found for phone '' @ the (pp_phone_e164 parsed))\<rparr>,
           payment_log_submission env s parsed)
        else
          (\<lparr>pr_success = True, pr_registration_id = None,
            pr_link_status = Some ORPHAN_PAYMENT, pr_is_emergency = True,
            pr_error_message = Some ''No matching registration found for payment''\<rparr>,
           payment_log_submission env s parsed))
     else
       (\<lparr>pr_success = True, pr_registration_id = None,
            pr_link_status = Some ORPHAN_PAYMENT, pr_is_emergency = True,
            pr_error_message = Some ''No matching registration found for payment''\<rparr>,
           payment_log_submission env s parsed))"
proof -
  from assms(1) have v: "\<not> (\<not> present (pp_registration_id parsed) \<and> \<not> present (pp_phone_e164 parsed))"
    by blast
  show ?thesis
    unfolding process_payment_def
    by (simp only: v if_False assms(2) option.case)
       (cases "pp_event_id parsed"; cases "pp_phone_e164 parsed"; simp add: Let_def)
qed

subsection \<open>The example stores\<close>

lemmas example_defs =
  ex_payload_def ex_env1_def ex_env2_def ex_signup_def ex_signup_no_id_def ex_payment_by_id_def
  ex_payment_by_phone_def ex_payment_unknown_id_def ex_payment_no_identifiers_def
  ex_store_one_def ex_store_two_def empty_store_def

lemma ex_store_one_registrations:
  "registrations ex_store_one = [new_registration ex_env1 ex_signup ''R1'' ''EVT-1'']"
  by (simp add: example_defs process_signup_def signup_registration_id_def signup_event_id_def
      get_registration_def signup_log_submission_def Let_def)

lemma ex_store_two_registrations:
  "registrations ex_store_two =
     [new_registration ex_env1 ex_signup ''R1'' ''EVT-1'',
      new_registration ex_env2 (ex_signup\<lparr>ps_registration_id := Some ''R2''\<rparr>) ''R2'' ''EVT-1'']"
  by (simp add: ex_store_two_def ex_store_one_registrations process_signup_def
      signup_registration_id_def signup_event_id_def get_registration_def
      signup_log_submission_def Let_def new_registration_def ex_signup_def)

subsection \<open>Payments without identifiers\<close>

text \<open>
  Claim C4, as amended. A parsed payment record with neither a registration id nor a
  canonical phone is rejected at once: the result has \<^verbatim>\<open>success=False\<close>, no registration id
  and no link status, and carries the validation message; the store is returned as it was (no
  registration touched, no audit record written), and the result is the same whatever the
  store holds (no lookup decides it). The flag \<^verbatim>\<open>is_emergency\<close> of this result is set.
\<close>

theorem process_payment_validation_failure:
  assumes "\<not> present (pp_registration_id parsed)" and "\<not> present (pp_phone_e164 parsed)"
  shows "process_payment env s parsed =
           (\<lparr>pr_success = False, pr_registration_id = None, pr_link_status = None,
             pr_is_emergency = True,
             pr_error_message =
               Some ''Payment has neither registration_id nor valid phone number''\<rparr>,
            s)
         \<and> fst (process_payment env s' parsed) = fst (process_payment env s parsed)"
  using assms by (simp add: process_payment_rejected)

theorem process_payment_validation_failure_witness:
  "\<not> present (pp_registration_id ex_payment_no_identifiers)
   \<and> \<not> present (pp_phone_e164 ex_payment_no_identifiers)
   \<and> process_payment ex_env2 ex_store_one ex_payment_no_identifiers =
           (\<lparr>pr_success = False, pr_registration_id = None, pr_link_status = None,
             pr_is_emergency = True,
             pr_error_message =
               Some ''Payment has neither registration_id nor valid phone number''\<rparr>,
            ex_store_one)
   \<and> fst (process_payment ex_env2 empty_store ex_payment_no_identifiers) =
       fst (process_payment ex_env2 ex_store_one ex_payment_no_identifiers)"
proof -
  have h1: "\<not> present (pp_registration_id ex_payment_no_identifiers)"
    and h2: "\<not> present (pp_phone_e164 ex_payment_no_identifiers)"
    by (simp_all add: ex_payment_no_identifiers_def)
  from process_payment_validation_failure [OF h1 h2, of ex_env2 ex_store_one empty_store] h1 h2
  show ?thesis by simp
qed

text \<open>
  Claim C4, as stated, says that the rejected outcome is not an emergency: the code sets
  \<^verbatim>\<open>is_emergency=True\<close> on it.
\<close>

theorem rejected_payment_is_emergency:
  "pr_is_emergency (fst (process_payment ex_env2 ex_store_one ex_payment_no_identifiers))"
  by (simp add: process_payment_def ex_payment_no_identifiers_def)

subsection \<open>The direct match\<close>

text \<open>
  Claim C2. When the registration id of a parsed payment record is present and names an
  existing registration, \<^verbatim>\<open>process_payment\<close> returns success with that id, the status
  \<^verbatim>\<open>matched_by_registration_id\<close> and no emergency, whatever the event id and the phone of
  the record are; the registration becomes paid at the time of the request, with the payment
  payload and the two claimed fields copied, the link status set and \<^verbatim>\<open>updated_at\<close> bumped;
  every other registration is as before, one payment audit record is appended and the signup
  audit table is unchanged.
\<close>

theorem process_payment_direct_match:
  assumes "pp_registration_id parsed = Some rid" and "rid \<noteq> []"
    and "get_registration s rid = Some registration"
  shows "fst (process_payment env s parsed) =
           \<lparr>pr_success = True, pr_registration_id = Some rid,
            pr_link_status = Some MATCHED_BY_REGISTRATION_ID, pr_is_emergency = False,
            pr_error_message = None\<rparr>
         \<and> get_registration (snd (process_payment env s parsed)) rid =
             Some (registration\<lparr>paid := True,
                                paid_at := Some (now env),
                                payment_payload := Some (pp_raw_payload parsed),
                                payment_received_at := Some (now env),
                                payment_claimed_registration_id := Some rid,
                                payment_claimed_phone_e164 := pp_phone_e164 parsed,
                                payment_link_status := ''matched_by_registration_id'',
                                updated_at := now env\<rparr>)
         \<and> (\<forall>other. other \<noteq> rid \<longrightarrow>
               get_registration (snd (process_payment env s parsed)) other =
               get_registration s other)
         \<and> length (registrations (snd (process_payment env s parsed))) = length (registrations s)
         \<and> (\<exists>row. payments (snd (process_payment env s parsed)) = payments s @ [row])
         \<and> signups (snd (process_payment env s parsed)) = signups s"
proof -
  let ?marked = "mark_paid registration parsed (now env) MATCHED_BY_REGISTRATION_ID"
  let ?s1 = "s\<lparr>registrations := replace_row ?marked (registrations s)\<rparr>"
  have pid: "registration_id registration = rid"
    using get_registration_id [OF assms(3)] by simp
  have mid: "registration_id ?marked = rid"
    using pid by (simp add: mark_paid_def)
  have run: "process_payment env s parsed =
     (\<lparr>pr_success = True, pr_registration_id = Some rid,
       pr_link_status = Some MATCHED_BY_REGISTRATION_ID, pr_is_emergency = False,
       pr_error_message = None\<rparr>,
      payment_log_submission env ?s1 parsed)"
    by (rule process_payment_direct [OF assms])
  have frame: "registrations (payment_log_submission env ?s1 parsed) = replace_row ?marked (registrations s)
      \<and> signups (payment_log_submission env ?s1 parsed) = signups s
      \<and> (\<exists>row. payments (payment_log_submission env ?s1 parsed) = payments s @ [row])"
    using payment_log_frame [of env ?s1 parsed] by simp
  have g: "get_registration (payment_log_submission env ?s1 parsed) rid = Some ?marked"
    using frame assms(3) mid by (simp add: get_registration_def find_replace_row_same)
  have o: "\<forall>other. other \<noteq> rid \<longrightarrow>
             get_registration (payment_log_submission env ?s1 parsed) other = get_registration s other"
    using frame mid by (simp add: get_registration_def find_replace_row_other)
  have m: "?marked = registration\<lparr>paid := True,
                                paid_at := Some (now env),
                                payment_payload := Some (pp_raw_payload parsed),
                                payment_received_at := Some (now env),
                                payment_claimed_registration_id := Some rid,
                                payment_claimed_phone_e164 := pp_phone_e164 parsed,
                                payment_link_status := ''matched_by_registration_id'',
                                updated_at := now env\<rparr>"
    using assms(1) by (simp add: mark_paid_def)
  show ?thesis
    using run frame g o m by (simp add: length_replace_row)
qed


theorem process_payment_direct_match_witness:
  "get_registration ex_store_one ''R1'' = Some (new_registration ex_env1 ex_signup ''R1'' ''EVT-1'')
   \<and> fst (process_payment ex_env2 ex_store_one ex_payment_by_id) =
           \<lparr>pr_success = True, pr_registration_id = Some ''R1'',
            pr_link_status = Some MATCHED_BY_REGISTRATION_ID, pr_is_emergency = False,
            pr_error_message = None\<rparr>
   \<and> get_registration (snd (process_payment ex_env2 ex_store_one ex_payment_by_id)) ''R1'' =
       Some ((new_registration ex_env1 ex_signup ''R1'' ''EVT-1'')
               \<lparr>paid := True, paid_at := Some 2, payment_payload := Some ex_payload,
                payment_received_at := Some 2,
                payment_claimed_registration_id := Some ''R1'',
                payment_claimed_phone_e164 := None,
                payment_link_status := ''matched_by_registration_id'',
                updated_at := 2\<rparr>)
   \<and> length (registrations (snd (process_payment ex_env2 ex_store_one ex_payment_by_id))) = 1"
proof -
  have h1: "pp_registration_id ex_payment_by_id = Some ''R1''"
    by (simp add: ex_payment_by_id_def)
  have h2: "''R1'' \<noteq> []" by simp
  have h3: "get_registration ex_store_one ''R1'' =
              Some (new_registration ex_env1 ex_signup ''R1'' ''EVT-1'')"
    by (simp add: get_registration_def ex_store_one_registrations new_registration_def)
  from process_payment_direct_match [OF h1 h2 h3, of ex_env2] h3
  show ?thesis
    by (simp add: ex_payment_by_id_def ex_env2_def ex_store_one_registrations)
qed

subsection \<open>Phone matching without a unique match\<close>

text \<open>
  Claim C3. When a parsed payment record reaches phone matching (no direct match; event id
  and canonical phone present) and the query for its event and phone returns no registration
  or more than one, every registration row is unchanged, one payment audit record is appended,
  and the result is a success flagged as an emergency, without a registration id: with the
  status \<^verbatim>\<open>orphan_payment\<close> when nothing matches, and with \<^verbatim>\<open>ambiguous_phone_match\<close> and the
  message \<^verbatim>\<open>Multiple registrations found for phone ...\<close> when several match.
\<close>

theorem process_payment_no_unique_phone_match:
  assumes "\<forall>rid. pp_registration_id parsed = Some rid \<longrightarrow> rid \<noteq> [] \<longrightarrow> get_registration s rid = None"
    and "pp_event_id parsed = Some eid" and "eid \<noteq> []"
    and "pp_phone_e164 parsed = Some phone" and "phone \<noteq> []"
    and "length (find_by_event_and_phone s eid phone) \<noteq> 1"
  shows "fst (process_payment env s parsed) =
           \<lparr>pr_success = True, pr_registration_id = None,
            pr_link_status =
              Some (if find_by_event_and_phone s eid phone = [] then ORPHAN_PAYMENT
                    else AMBIGUOUS_PHONE_MATCH),
            pr_is_emergency = True,
            pr_error_message =
              Some (if find_by_event_and_phone s eid phone = []
                    then ''No matching registration found for payment''
                    else ''Multiple registrations found for phone '' @ phone)\<rparr>
         \<and> registrations (snd (process_payment env s parsed)) = registrations s
         \<and> (\<exists>row. payments (snd (process_payment env s parsed)) = payments s @ [row])
         \<and> signups (snd (process_payment env s parsed)) = signups s"
proof -
  have a: "present (pp_registration_id parsed) \<or> present (pp_phone_e164 parsed)"
    using assms(4,5) by simp
  have b: "(case pp_registration_id parsed of None \<Rightarrow> None
               | Some rid \<Rightarrow> if rid = [] then None else get_registration s rid) = None"
    using assms(1) by (simp split: option.splits)
  have c: "present (pp_event_id parsed) \<and> present (pp_phone_e164 parsed)"
    using assms(2-5) by simp
  show ?thesis
  proof (cases "find_by_event_and_phone s eid phone = []")
    case True
    then show ?thesis
      using payment_log_frame [of env s parsed] assms(2-5)
      by (simp add: process_payment_fallthrough [OF a b])
  next
    case False
    with assms(6) have "length (find_by_event_and_phone s eid phone) > 1"
      by (cases "find_by_event_and_phone s eid phone") auto
    with False show ?thesis
      using payment_log_frame [of env s parsed] assms(2-5)
      by (simp add: process_payment_fallthrough [OF a b])
  qed
qed

theorem process_payment_no_unique_phone_match_witness:
  "pp_registration_id ex_payment_by_phone = None
   \<and> length (find_by_event_and_phone ex_store_two ''EVT-1'' ''+14155551234'') = 2
   \<and> fst (process_payment ex_env2 ex_store_two ex_payment_by_phone) =
           \<lparr>pr_success = True, pr_registration_id = None,
            pr_link_status = Some AMBIGUOUS_PHONE_MATCH,
            pr_is_emergency = True,
            pr_error_message = Some ''Multiple registrations found for phone +14155551234''\<rparr>
   \<and> registrations (snd (process_payment ex_env2 ex_store_two ex_payment_by_phone)) =
       registrations ex_store_two
   \<and> (\<exists>row. payments (snd (process_payment ex_env2 ex_store_two ex_payment_by_phone)) =
              payments ex_store_two @ [row])"
proof -
  have h0: "pp_registration_id ex_payment_by_phone = None"
    by (simp add: ex_payment_by_phone_def)
  then have h1: "\<forall>rid. pp_registration_id ex_payment_by_phone = Some rid \<longrightarrow> rid \<noteq> [] \<longrightarrow>
                   get_registration ex_store_two rid = None"
    by simp
  have h2: "pp_event_id ex_payment_by_phone = Some ''EVT-1''"
    and h4: "pp_phone_e164 ex_payment_by_phone = Some ''+14155551234''"
    by (simp_all add: ex_payment_by_phone_def)
  have h3: "''EVT-1'' \<noteq> []" and h5: "''+14155551234'' \<noteq> []" by simp_all
  have two: "length (find_by_event_and_phone ex_store_two ''EVT-1'' ''+14155551234'') = 2"
    by (simp add: find_by_event_and_phone_def ex_store_two_registrations new_registration_def
        ex_signup_def)
  then have h6: "length (find_by_event_and_phone ex_store_two ''EVT-1'' ''+14155551234'') \<noteq> 1"
    by simp
  from two have ne: "find_by_event_and_phone ex_store_two ''EVT-1'' ''+14155551234'' \<noteq> []"
    by auto
  from process_payment_no_unique_phone_match [OF h1 h2 h3 h4 h5 h6, of ex_env2] h0 two ne
  show ?thesis by simp
qed

subsection \<open>A claimed registration id that names no registration\<close>

lemma find_distinct_member:
  "distinct (map registration_id rows) \<Longrightarrow> r \<in> set rows \<Longrightarrow>
   find (\<lambda>x. registration_id x = registration_id r) rows = Some r"
  by (induction rows) force+

text \<open>
  Claim C10. When the registration id of a parsed payment record is present and names no
  existing registration, \<^verbatim>\<open>process_payment\<close> does not fail. With event id and canonical
  phone present it goes on to phone matching: on exactly one registration for that event and
  phone it marks that registration \<^verbatim>\<open>matched_by_phone\<close>, with the unknown claimed id stored
  as it came in \<^verbatim>\<open>payment_claimed_registration_id\<close>, and appends an audit record. When the
  event id or the phone is missing, or no registration has that event and phone, it returns
  the \<^verbatim>\<open>orphan_payment\<close> emergency, changes no registration and appends an audit record.
  (Several matches are the ambiguous case of claim C3.)
\<close>

theorem process_payment_unknown_registration_id:
  assumes "pp_registration_id parsed = Some rid" and "rid \<noteq> []"
    and "get_registration s rid = None"
  shows "pr_success (fst (process_payment env s parsed))
    \<and> (\<forall>eid phone registration.
          pp_event_id parsed = Some eid \<and> eid \<noteq> [] \<and>
          pp_phone_e164 parsed = Some phone \<and> phone \<noteq> [] \<and>
          find_by_event_and_phone s eid phone = [registration] \<longrightarrow>
            fst (process_payment env s parsed) =
              \<lparr>pr_success = True, pr_registration_id = Some (registration_id registration),
               pr_link_status = Some MATCHED_BY_PHONE, pr_is_emergency = False,
               pr_error_message = None\<rparr>
            \<and> registrations (snd (process_payment env s parsed)) =
                replace_row
                  (registration\<lparr>paid := True,
                                paid_at := Some (now env),
                                payment_payload := Some (pp_raw_payload parsed),
                                payment_received_at := Some (now env),
                                payment_claimed_registration_id := Some rid,
                                payment_claimed_phone_e164 := Some phone,
                                payment_link_status := ''matched_by_phone'',
                                updated_at := now env\<rparr>)
                  (registrations s)
            \<and> (distinct (map registration_id (registrations s)) \<longrightarrow>
                 get_registration (snd (process_payment env s parsed))
                   (registration_id registration) =
                   Some (registration\<lparr>paid := True,
                                paid_at := Some (now env),
                                payment_payload := Some (pp_raw_payload parsed),
                                payment_received_at := Some (now env),
                                payment_claimed_registration_id := Some rid,
                                payment_claimed_phone_e164 := Some phone,
                                payment_link_status := ''matched_by_phone'',
                                updated_at := now env\<rparr>))
            \<and> (\<exists>row. payments (snd (process_payment env s parsed)) = payments s @ [row]))
    \<and> (\<not> (present (pp_event_id parsed) \<and> present (pp_phone_e164 parsed)) \<or>
        find_by_event_and_phone s (the (pp_event_id parsed)) (the (pp_phone_e164 parsed)) = [] \<longrightarrow>
          fst (process_payment env s parsed) =
            \<lparr>pr_success = True, pr_registration_id = None,
             pr_link_status = Some ORPHAN_PAYMENT, pr_is_emergency = True,
             pr_error_message = Some ''No matching registration found for payment''\<rparr>
          \<and> registrations (snd (process_payment env s parsed)) = registrations s
          \<and> (\<exists>row. payments (snd (process_payment env s parsed)) = payments s @ [row]))"
proof -
  have a: "present (pp_registration_id parsed) \<or> present (pp_phone_e164 parsed)"
    using assms(1,2) by simp
  have b: "(case pp_registration_id parsed of None \<Rightarrow> None
               | Some rid \<Rightarrow> if rid = [] then None else get_registration s rid) = None"
    using assms by simp
  note ft = process_payment_fallthrough [OF a b, of env]
  have success: "pr_success (fst (process_payment env s parsed))"
    by (simp add: ft Let_def)
  have one: "fst (process_payment env s parsed) =
              \<lparr>pr_success = True, pr_registration_id = Some (registration_id registration),
               pr_link_status = Some MATCHED_BY_PHONE, pr_is_emergency = False,
               pr_error_message = None\<rparr>
            \<and> registrations (snd (process_payment env s parsed)) =
                replace_row
                  (registration\<lparr>paid := True,
                                paid_at := Some (now env),
                                payment_payload := Some (pp_raw_payload parsed),
                                payment_received_at := Some (now env),
                                payment_claimed_registration_id := Some rid,
                                payment_claimed_phone_e164 := Some phone,
                                payment_link_status := ''matched_by_phone'',
                                updated_at := now env\<rparr>)
                  (registrations s)
            \<and> (distinct (map registration_id (registrations s)) \<longrightarrow>
                 get_registration (snd (process_payment env s parsed))
                   (registration_id registration) =
                   Some (registration\<lparr>paid := True,
                                paid_at := Some (now env),
                                payment_payload := Some (pp_raw_payload parsed),
                                payment_received_at := Some (now env),
                                payment_claimed_registration_id := Some rid,
                                payment_claimed_phone_e164 := Some phone,
                                payment_link_status := ''matched_by_phone'',
                                updated_at := now env\<rparr>))
            \<and> (\<exists>row. payments (snd (process_payment env s parsed)) = payments s @ [row])"
    if h: "pp_event_id parsed = Some eid" "eid \<noteq> []" "pp_phone_e164 parsed = Some phone"
      "phone \<noteq> []" "find_by_event_and_phone s eid phone = [registration]"
    for eid phone registration
  proof -
    let ?marked = "mark_paid registration parsed (now env) MATCHED_BY_PHONE"
    let ?s1 = "s\<lparr>registrations := replace_row ?marked (registrations s)\<rparr>"
    have m: "?marked = registration\<lparr>paid := True,
                                paid_at := Some (now env),
                                payment_payload := Some (pp_raw_payload parsed),
                                payment_received_at := Some (now env),
                                payment_claimed_registration_id := Some rid,
                                payment_claimed_phone_e164 := Some phone,
                                payment_link_status := ''matched_by_phone'',
                                updated_at := now env\<rparr>"
      using assms(1) h(3) by (simp add: mark_paid_def)
    have run: "process_payment env s parsed =
        (\<lparr>pr_success = True, pr_registration_id = Some (registration_id registration),
           pr_link_status = Some MATCHED_BY_PHONE, pr_is_emergency = False,
           pr_error_message = None\<rparr>,
         payment_log_submission env ?s1 parsed)"
      using h by (simp add: ft)
    have frame: "registrations (payment_log_submission env ?s1 parsed) = replace_row ?marked (registrations s)
      \<and> (\<exists>row. payments (payment_log_submission env ?s1 parsed) = payments s @ [row])"
      using payment_log_frame [of env ?s1 parsed] by simp
    have mem: "registration \<in> set (registrations s)"
    proof -
      have "registration \<in> set (find_by_event_and_phone s eid phone)" using h(5) by simp
      then show ?thesis by (simp add: find_by_event_and_phone_def)
    qed
    have mid: "registration_id ?marked = registration_id registration"
      by (simp add: mark_paid_def)
    have g: "get_registration (payment_log_submission env ?s1 parsed) (registration_id registration)
               = Some ?marked"
      if d: "distinct (map registration_id (registrations s))"
      using frame find_distinct_member [OF d mem] mid
      by (simp add: get_registration_def find_replace_row_same)
    show ?thesis
      using run frame g by (simp add: m [symmetric])
  qed
  have orphan: "fst (process_payment env s parsed) =
            \<lparr>pr_success = True, pr_registration_id = None,
             pr_link_status = Some ORPHAN_PAYMENT, pr_is_emergency = True,
             pr_error_message = Some ''No matching registration found for payment''\<rparr>
          \<and> registrations (snd (process_payment env s parsed)) = registrations s
          \<and> (\<exists>row. payments (snd (process_payment env s parsed)) = payments s @ [row])"
    if "\<not> (present (pp_event_id parsed) \<and> present (pp_phone_e164 parsed)) \<or>
        find_by_event_and_phone s (the (pp_event_id parsed)) (the (pp_phone_e164 parsed)) = []"
    using that payment_log_frame [of env s parsed]
    by (auto simp: ft Let_def)
  from success one orphan show ?thesis by blast
qed


theorem process_payment_unknown_registration_id_witness:
  "get_registration ex_store_one ''R9'' = None
   \<and> find_by_event_and_phone ex_store_one ''EVT-1'' ''+14155551234'' =
       [new_registration ex_env1 ex_signup ''R1'' ''EVT-1'']
   \<and> fst (process_payment ex_env2 ex_store_one ex_payment_unknown_id) =
       \<lparr>pr_success = True, pr_registration_id = Some ''R1'',
        pr_link_status = Some MATCHED_BY_PHONE, pr_is_emergency = False,
        pr_error_message = None\<rparr>
   \<and> registrations (snd (process_payment ex_env2 ex_store_one ex_payment_unknown_id)) =
       [(new_registration ex_env1 ex_signup ''R1'' ''EVT-1'')
          \<lparr>paid := True, paid_at := Some 2, payment_payload := Some ex_payload,
           payment_received_at := Some 2,
           payment_claimed_registration_id := Some ''R9'',
           payment_claimed_phone_e164 := Some ''+14155551234'',
           payment_link_status := ''matched_by_phone'',
           updated_at := 2\<rparr>]
   \<and> fst (process_payment ex_env2 ex_store_one (ex_payment_unknown_id\<lparr>pp_event_id := None\<rparr>)) =
       \<lparr>pr_success = True, pr_registration_id = None,
        pr_link_status = Some ORPHAN_PAYMENT, pr_is_emergency = True,
        pr_error_message = Some ''No matching registration found for payment''\<rparr>
   \<and> registrations (snd (process_payment ex_env2 ex_store_one
                            (ex_payment_unknown_id\<lparr>pp_event_id := None\<rparr>))) =
       registrations ex_store_one"
proof -
  have h1: "pp_registration_id ex_payment_unknown_id = Some ''R9''"
    and h1': "pp_registration_id (ex_payment_unknown_id\<lparr>pp_event_id := None\<rparr>) = Some ''R9''"
    by (simp_all add: ex_payment_unknown_id_def)
  have h2: "''R9'' \<noteq> []" by simp
  have h3: "get_registration ex_store_one ''R9'' = None"
    by (simp add: get_registration_def ex_store_one_registrations new_registration_def)
  have m: "find_by_event_and_phone ex_store_one ''EVT-1'' ''+14155551234'' =
       [new_registration ex_env1 ex_signup ''R1'' ''EVT-1'']"
    by (simp add: find_by_event_and_phone_def ex_store_one_registrations new_registration_def
        ex_signup_def)
  have fields: "pp_event_id ex_payment_unknown_id = Some ''EVT-1'' \<and> ''EVT-1'' \<noteq> [] \<and>
          pp_phone_e164 ex_payment_unknown_id = Some ''+14155551234'' \<and> ''+14155551234'' \<noteq> []"
    by (simp add: ex_payment_unknown_id_def)
  have absent: "\<not> (present (pp_event_id (ex_payment_unknown_id\<lparr>pp_event_id := None\<rparr>)) \<and>
                   present (pp_phone_e164 (ex_payment_unknown_id\<lparr>pp_event_id := None\<rparr>)))"
    by simp
  from process_payment_unknown_registration_id [OF h1 h2 h3, of ex_env2] fields m
  have first: "fst (process_payment ex_env2 ex_store_one ex_payment_unknown_id) =
       \<lparr>pr_success = True,
        pr_registration_id = Some (registration_id (new_registration ex_env1 ex_signup ''R1'' ''EVT-1'')),
        pr_link_status = Some MATCHED_BY_PHONE, pr_is_emergency = False,
        pr_error_message = None\<rparr>
     \<and> registrations (snd (process_payment ex_env2 ex_store_one ex_payment_unknown_id)) =
        replace_row
          ((new_registration ex_env1 ex_signup ''R1'' ''EVT-1'')
             \<lparr>paid := True, paid_at := Some (now ex_env2),
              payment_payload := Some (pp_raw_payload ex_payment_unknown_id),
              payment_received_at := Some (now ex_env2),
              payment_claimed_registration_id := Some ''R9'',
              payment_claimed_phone_e164 := Some ''+14155551234'',
              payment_link_status := ''matched_by_phone'',
              updated_at := now ex_env2\<rparr>)
          (registrations ex_store_one)"
    by blast
  from process_payment_unknown_registration_id [OF h1' h2 h3, of ex_env2] absent
  have second: "fst (process_payment ex_env2 ex_store_one (ex_payment_unknown_id\<lparr>pp_event_id := None\<rparr>)) =
       \<lparr>pr_success = True, pr_registration_id = None,
        pr_link_status = Some ORPHAN_PAYMENT, pr_is_emergency = True,
        pr_error_message = Some ''No matching registration found for payment''\<rparr>
     \<and> registrations (snd (process_payment ex_env2 ex_store_one
                            (ex_payment_unknown_id\<lparr>pp_event_id := None\<rparr>))) =
       registrations ex_store_one"
    by blast
  from first second h3 m show ?thesis
    by (simp add: ex_store_one_registrations new_registration_def ex_env2_def
        ex_payment_unknown_id_def)
qed

subsection \<open>The invariant\<close>

lemma process_signup_registrations:
  "(\<exists>existing. existing \<in> set (registrations s) \<and>
       registrations (snd (process_signup env s parsed)) =
         replace_row (update_existing env parsed (signup_event_id env parsed) existing)
           (registrations s))
   \<or> registrations (snd (process_signup env s parsed)) =
        registrations s @
          [new_registration env parsed (signup_registration_id env parsed)
             (signup_event_id env parsed)]"
proof (cases "get_registration s (signup_registration_id env parsed)")
  case None
  then show ?thesis
    using signup_log_frame by (simp add: process_signup_def Let_def)
next
  case (Some existing)
  with get_registration_id [OF Some] show ?thesis
    using signup_log_frame by (auto simp: process_signup_def Let_def)
qed

lemma process_payment_registrations:
  "registrations (snd (process_payment env s parsed)) = registrations s
   \<or> (\<exists>registration status. registration \<in> set (registrations s) \<and>
         (status = MATCHED_BY_REGISTRATION_ID \<or> status = MATCHED_BY_PHONE) \<and>
         registrations (snd (process_payment env s parsed)) =
           replace_row (mark_paid registration parsed (now env) status) (registrations s))"
proof (cases "\<not> present (pp_registration_id parsed) \<and> \<not> present (pp_phone_e164 parsed)")
  case True
  then show ?thesis by (simp add: process_payment_rejected)
next
  case valid: False
  then have a: "present (pp_registration_id parsed) \<or> present (pp_phone_e164 parsed)" by blast
  show ?thesis
  proof (cases "case pp_registration_id parsed of None \<Rightarrow> None
               | Some rid \<Rightarrow> if rid = [] then None else get_registration s rid")
    case None
    let ?matches = "find_by_event_and_phone s (the (pp_event_id parsed)) (the (pp_phone_e164 parsed))"
    have "hd ?matches \<in> set (registrations s)" if "length ?matches = 1"
    proof -
      from that have "?matches \<noteq> []" by auto
      then have "hd ?matches \<in> set ?matches" by simp
      then show ?thesis by (simp add: find_by_event_and_phone_def)
    qed
    then show ?thesis
      using payment_log_frame
      by (auto simp: process_payment_fallthrough [OF a None] Let_def)
  next
    case (Some registration)
    then obtain rid where r: "pp_registration_id parsed = Some rid" "rid \<noteq> []"
      "get_registration s rid = Some registration"
      by (auto split: option.splits if_splits)
    from get_registration_id [OF r(3)] show ?thesis
      using payment_log_frame by (auto simp: process_payment_direct [OF r])
  qed
qed

lemma replace_row_all:
  "\<forall>r \<in> set rows. P r \<Longrightarrow> P r' \<Longrightarrow> \<forall>r \<in> set (replace_row r' rows). P r"
  by (induction rows) auto

lemma handle_invariant:
  assumes "\<forall>r \<in> set (registrations s). paid r \<longrightarrow>
             payment_link_status r = ''matched_by_registration_id'' \<or>
             payment_link_status r = ''matched_by_phone''"
  shows "\<forall>r \<in> set (registrations (handle s request)). paid r \<longrightarrow>
             payment_link_status r = ''matched_by_registration_id'' \<or>
             payment_link_status r = ''matched_by_phone''"
proof (cases request)
  case (SignupRequest env parsed)
  from process_signup_registrations [of s env parsed] show ?thesis
  proof
    assume "\<exists>existing. existing \<in> set (registrations s) \<and>
       registrations (snd (process_signup env s parsed)) =
         replace_row (update_existing env parsed (signup_event_id env parsed) existing)
           (registrations s)"
    then obtain existing where e: "existing \<in> set (registrations s)"
      and r: "registrations (snd (process_signup env s parsed)) =
         replace_row (update_existing env parsed (signup_event_id env parsed) existing)
           (registrations s)"
      by blast
    have "paid (update_existing env parsed (signup_event_id env parsed) existing) \<longrightarrow>
            payment_link_status (update_existing env parsed (signup_event_id env parsed) existing)
              = ''matched_by_registration_id'' \<or>
            payment_link_status (update_existing env parsed (signup_event_id env parsed) existing)
              = ''matched_by_phone''"
      using assms e by (simp add: update_existing_def)
    from replace_row_all [where P = "\<lambda>r. paid r \<longrightarrow>
             payment_link_status r = ''matched_by_registration_id'' \<or>
             payment_link_status r = ''matched_by_phone''", OF assms this]
    show ?thesis by (simp add: SignupRequest r)
  next
    assume "registrations (snd (process_signup env s parsed)) =
        registrations s @
          [new_registration env parsed (signup_registration_id env parsed)
             (signup_event_id env parsed)]"
    then show ?thesis
      using assms by (auto simp: SignupRequest new_registration_def)
  qed
next
  case (PaymentRequest env parsed)
  from process_payment_registrations [of env s parsed] show ?thesis
  proof
    assume "registrations (snd (process_payment env s parsed)) = registrations s"
    then show ?thesis using assms by (simp add: PaymentRequest)
  next
    assume "\<exists>registration status. registration \<in> set (registrations s) \<and>
         (status = MATCHED_BY_REGISTRATION_ID \<or> status = MATCHED_BY_PHONE) \<and>
         registrations (snd (process_payment env s parsed)) =
           replace_row (mark_paid registration parsed (now env) status) (registrations s)"
    then obtain registration status where
      st: "status = MATCHED_BY_REGISTRATION_ID \<or> status = MATCHED_BY_PHONE"
      and r: "registrations (snd (process_payment env s parsed)) =
           replace_row (mark_paid registration parsed (now env) status) (registrations s)"
      by blast
    have "paid (mark_paid registration parsed (now env) status) \<longrightarrow>
            payment_link_status (mark_paid registration parsed (now env) status)
              = ''matched_by_registration_id'' \<or>
            payment_link_status (mark_paid registration parsed (now env) status)
              = ''matched_by_phone''"
      using st by (auto simp: mark_paid_def)
    from replace_row_all [where P = "\<lambda>r. paid r \<longrightarrow>
             payment_link_status r = ''matched_by_registration_id'' \<or>
             payment_link_status r = ''matched_by_phone''", OF assms this]
    show ?thesis by (simp add: PaymentRequest r)
  qed
qed

lemma run_invariant:
  assumes "\<forall>r \<in> set (registrations s). paid r \<longrightarrow>
             payment_link_status r = ''matched_by_registration_id'' \<or>
             payment_link_status r = ''matched_by_phone''"
  shows "\<forall>r \<in> set (registrations (run s requests)). paid r \<longrightarrow>
             payment_link_status r = ''matched_by_registration_id'' \<or>
             payment_link_status r = ''matched_by_phone''"
  using assms unfolding run_def
proof (induction requests arbitrary: s)
  case Nil
  then show ?case by simp
next
  case (Cons request requests)
  from Cons.IH [OF handle_invariant [OF Cons.prems]] show ?case by simp
qed
text \<open>
  Claim C1. In every store reached from the empty store by a sequence of signup and payment
  requests, each paid registration has the link status \<^verbatim>\<open>matched_by_registration_id\<close> or
  \<^verbatim>\<open>matched_by_phone\<close>; a payment that ends as \<^verbatim>\<open>orphan_payment\<close> or
  \<^verbatim>\<open>ambiguous_phone_match\<close> leaves every registration as it was; and a registration that a
  signup creates is unpaid, with the status \<^verbatim>\<open>unpaid\<close>.
\<close>

theorem paid_implies_matched:
  "(\<forall>r \<in> set (registrations (run empty_store requests)). paid r \<longrightarrow>
       payment_link_status r = ''matched_by_registration_id'' \<or>
       payment_link_status r = ''matched_by_phone'')
   \<and> (pr_link_status (fst (process_payment env s parsed)) = Some ORPHAN_PAYMENT \<or>
       pr_link_status (fst (process_payment env s parsed)) = Some AMBIGUOUS_PHONE_MATCH \<longrightarrow>
         registrations (snd (process_payment env s parsed)) = registrations s)
   \<and> (sr_is_new (fst (process_signup env' s' signup)) \<longrightarrow>
         (\<exists>r. registrations (snd (process_signup env' s' signup)) = registrations s' @ [r] \<and>
              \<not> paid r \<and> payment_link_status r = ''unpaid''))"
proof -
  have inv: "\<forall>r \<in> set (registrations (run empty_store requests)). paid r \<longrightarrow>
       payment_link_status r = ''matched_by_registration_id'' \<or>
       payment_link_status r = ''matched_by_phone''"
    by (rule run_invariant) (simp add: empty_store_def)
  have emergencies: "registrations (snd (process_payment env s parsed)) = registrations s"
    if e: "pr_link_status (fst (process_payment env s parsed)) = Some ORPHAN_PAYMENT \<or>
       pr_link_status (fst (process_payment env s parsed)) = Some AMBIGUOUS_PHONE_MATCH"
  proof (cases "\<not> present (pp_registration_id parsed) \<and> \<not> present (pp_phone_e164 parsed)")
    case True
    then show ?thesis by (simp add: process_payment_rejected)
  next
    case False
    then have a: "present (pp_registration_id parsed) \<or> present (pp_phone_e164 parsed)" by blast
    show ?thesis
    proof (cases "case pp_registration_id parsed of None \<Rightarrow> None
               | Some rid \<Rightarrow> if rid = [] then None else get_registration s rid")
      case None
      show ?thesis
        using e payment_log_frame [of env s parsed]
        by (auto simp: process_payment_fallthrough [OF a None] Let_def split: if_splits)
    next
      case (Some registration)
      then obtain rid where r: "pp_registration_id parsed = Some rid" "rid \<noteq> []"
        "get_registration s rid = Some registration"
        by (auto split: option.splits if_splits)
      from e show ?thesis by (simp add: process_payment_direct [OF r])
    qed
  qed
  have new: "\<exists>r. registrations (snd (process_signup env' s' signup)) = registrations s' @ [r] \<and>
              \<not> paid r \<and> payment_link_status r = ''unpaid''"
    if "sr_is_new (fst (process_signup env' s' signup))"
  proof -
    from that have "get_registration s' (signup_registration_id env' signup) = None"
      by (simp add: process_signup_def Let_def)
    then have "registrations (snd (process_signup env' s' signup)) =
        registrations s' @ [new_registration env' signup (signup_registration_id env' signup)
                             (signup_event_id env' signup)]"
      using signup_log_frame by (simp add: process_signup_def Let_def)
    then show ?thesis by (simp add: new_registration_def)
  qed
  from inv emergencies new show ?thesis by blast
qed

lemma ex_run_registrations:
  "registrations (run empty_store [SignupRequest ex_env1 ex_signup,
                                   PaymentRequest ex_env2 ex_payment_by_id]) =
     [mark_paid (new_registration ex_env1 ex_signup ''R1'' ''EVT-1'') ex_payment_by_id 2
        MATCHED_BY_REGISTRATION_ID]"
proof -
  have "run empty_store [SignupRequest ex_env1 ex_signup, PaymentRequest ex_env2 ex_payment_by_id]
        = snd (process_payment ex_env2 ex_store_one ex_payment_by_id)"
    by (simp add: run_def ex_store_one_def)
  moreover have "pp_registration_id ex_payment_by_id = Some ''R1''"
    by (simp add: ex_payment_by_id_def)
  moreover have "get_registration ex_store_one ''R1'' =
              Some (new_registration ex_env1 ex_signup ''R1'' ''EVT-1'')"
    by (simp add: get_registration_def ex_store_one_registrations new_registration_def)
  ultimately show ?thesis
    using payment_log_frame
    by (simp add: process_payment_direct [of ex_payment_by_id "''R1''" ex_store_one]
        ex_store_one_registrations ex_env2_def new_registration_def mark_paid_def)
qed

theorem paid_implies_matched_witness:
  "paid (hd (registrations (run empty_store [SignupRequest ex_env1 ex_signup,
                                               PaymentRequest ex_env2 ex_payment_by_id])))
   \<and> (payment_link_status
         (hd (registrations (run empty_store [SignupRequest ex_env1 ex_signup,
                                               PaymentRequest ex_env2 ex_payment_by_id])))
         = ''matched_by_registration_id''
       \<or> payment_link_status
         (hd (registrations (run empty_store [SignupRequest ex_env1 ex_signup,
                                               PaymentRequest ex_env2 ex_payment_by_id])))
         = ''matched_by_phone'')
   \<and> pr_link_status (fst (process_payment ex_env2 ex_store_two ex_payment_by_phone)) =
       Some AMBIGUOUS_PHONE_MATCH
   \<and> registrations (snd (process_payment ex_env2 ex_store_two ex_payment_by_phone)) =
       registrations ex_store_two
   \<and> sr_is_new (fst (process_signup ex_env1 empty_store ex_signup))
   \<and> (\<exists>r. registrations (snd (process_signup ex_env1 empty_store ex_signup)) =
            registrations empty_store @ [r] \<and> \<not> paid r \<and> payment_link_status r = ''unpaid'')"
proof -
  let ?reqs = "[SignupRequest ex_env1 ex_signup, PaymentRequest ex_env2 ex_payment_by_id]"
  note inst = paid_implies_matched [of ?reqs ex_env2 ex_store_two ex_payment_by_phone
      ex_env1 empty_store ex_signup]
  have p: "paid (hd (registrations (run empty_store ?reqs)))"
    and m: "hd (registrations (run empty_store ?reqs)) \<in> set (registrations (run empty_store ?reqs))"
    by (simp_all add: ex_run_registrations mark_paid_def)
  have two: "length (find_by_event_and_phone ex_store_two ''EVT-1'' ''+14155551234'') = 2"
    by (simp add: find_by_event_and_phone_def ex_store_two_registrations new_registration_def
        ex_signup_def)
  have amb: "pr_link_status (fst (process_payment ex_env2 ex_store_two ex_payment_by_phone)) =
       Some AMBIGUOUS_PHONE_MATCH"
    using two
    by (simp add: process_payment_def ex_payment_by_phone_def Let_def)
  have isnew: "sr_is_new (fst (process_signup ex_env1 empty_store ex_signup))"
    by (simp add: process_signup_def Let_def get_registration_def empty_store_def)
  from inst p m amb isnew show ?thesis by blast
qed
subsection \<open>Signing up again\<close>

lemma filter_distinct_key:
  "distinct (map f xs) \<Longrightarrow> x \<in> set xs \<Longrightarrow> length (filter (\<lambda>r. f r = f x) xs) = 1"
proof (induction xs)
  case Nil
  then show ?case by simp
next
  case (Cons a xs)
  show ?case
  proof (cases "x = a")
    case True
    from Cons.prems(1) have "f a \<notin> f ` set xs" by simp
    then have "\<forall>r \<in> set xs. f r \<noteq> f a" by (metis imageI)
    then have "filter (\<lambda>r. f r = f a) xs = []" by (simp add: filter_empty_conv)
    with True show ?thesis by simp
  next
    case False
    with Cons.prems have "x \<in> set xs" and "f a \<noteq> f x" by auto
    with Cons show ?thesis by simp
  qed
qed

lemma find_None_ids:
  "find (\<lambda>r. registration_id r = rid) rows = None \<Longrightarrow> rid \<notin> set (map registration_id rows)"
  by (induction rows) (auto split: if_splits)

lemma signup_registration_id_given:
  "ps_registration_id parsed = Some rid \<Longrightarrow> rid \<noteq> [] \<Longrightarrow> signup_registration_id env parsed = rid"
  by (simp add: signup_registration_id_def)

lemma signup_event_id_given:
  "present (ps_event_id parsed) \<Longrightarrow> signup_event_id env parsed = the (ps_event_id parsed)"
  by (cases "ps_event_id parsed") (simp_all add: signup_event_id_def)

lemma process_signup_new:
  assumes "get_registration s (signup_registration_id env parsed) = None"
  shows "fst (process_signup env s parsed) =
           \<lparr>sr_success = True, sr_registration_id = Some (signup_registration_id env parsed),
            sr_is_new = True, sr_error_message = None\<rparr>
         \<and> registrations (snd (process_signup env s parsed)) =
             registrations s @ [new_registration env parsed (signup_registration_id env parsed)
                                  (signup_event_id env parsed)]"
  using assms signup_log_frame by (simp add: process_signup_def Let_def)

lemma process_signup_existing:
  assumes "get_registration s (signup_registration_id env parsed) = Some existing"
  shows "fst (process_signup env s parsed) =
           \<lparr>sr_success = True, sr_registration_id = Some (signup_registration_id env parsed),
            sr_is_new = False, sr_error_message = None\<rparr>
         \<and> registrations (snd (process_signup env s parsed)) =
             replace_row (update_existing env parsed (signup_event_id env parsed) existing)
               (registrations s)"
  using assms signup_log_frame by (simp add: process_signup_def Let_def)

lemma process_signup_ids:
  "distinct (map registration_id (registrations s)) \<Longrightarrow>
   distinct (map registration_id (registrations (snd (process_signup env s parsed))))"
proof (cases "get_registration s (signup_registration_id env parsed)")
  case None
  assume "distinct (map registration_id (registrations s))"
  with None find_None_ids [of "signup_registration_id env parsed" "registrations s"]
  show ?thesis
    by (simp add: process_signup_new [OF None] get_registration_def new_registration_def)
next
  case (Some existing)
  assume "distinct (map registration_id (registrations s))"
  then show ?thesis
    by (simp add: process_signup_existing [OF Some] ids_replace_row)
qed

text \<open>The state of the row after one application, in both cases.\<close>

lemma process_signup_row:
  assumes rid: "signup_registration_id env parsed = rid"
  shows "\<exists>r1. get_registration (snd (process_signup env s parsed)) rid = Some r1
           \<and> registration_id r1 = rid
           \<and> event_id r1 = signup_event_id env parsed
           \<and> email r1 = ps_email parsed \<and> phone_e164 r1 = ps_phone_e164 parsed
           \<and> full_name r1 = ps_full_name parsed
           \<and> signup_payload r1 = Some (ps_raw_payload parsed)
           \<and> (\<forall>r0. get_registration s rid = Some r0 \<longrightarrow>
                 r1 = update_existing env parsed (signup_event_id env parsed) r0)"
proof (cases "get_registration s rid")
  case None
  then have n: "get_registration s (signup_registration_id env parsed) = None"
    using rid by simp
  show ?thesis
    using None rid
    by (simp add: process_signup_new [OF n] get_registration_def find_append_new
        new_registration_def)
next
  case (Some existing)
  then have e: "get_registration s (signup_registration_id env parsed) = Some existing"
    using rid by simp
  have i: "registration_id existing = rid"
    using get_registration_id [OF Some] by simp
  then have u: "registration_id (update_existing env parsed (signup_event_id env parsed) existing) = rid"
    by (simp add: update_existing_def)
  have "get_registration (snd (process_signup env s parsed)) rid =
          Some (update_existing env parsed (signup_event_id env parsed) existing)"
    using Some u
    by (simp add: process_signup_existing [OF e] get_registration_def find_replace_row_same)
  then show ?thesis
    using Some i by (simp add: update_existing_def)
qed

lemma process_signup_other:
  assumes "other \<noteq> signup_registration_id env parsed"
  shows "get_registration (snd (process_signup env s parsed)) other = get_registration s other"
proof (cases "get_registration s (signup_registration_id env parsed)")
  case None
  then have "find (\<lambda>r. registration_id r = signup_registration_id env parsed) (registrations s) = None"
    by (simp add: get_registration_def)
  from find_append_new [OF this, of other] assms show ?thesis
    by (simp add: process_signup_new [OF None] get_registration_def new_registration_def)
next
  case (Some existing)
  have "registration_id existing = signup_registration_id env parsed"
    using get_registration_id [OF Some] by simp
  then have "other \<noteq> registration_id (update_existing env parsed (signup_event_id env parsed) existing)"
    using assms by (simp add: update_existing_def)
  then show ?thesis
    by (simp add: process_signup_existing [OF Some] get_registration_def find_replace_row_other)
qed


text \<open>
  Claim C5, as amended. For a parsed signup record that carries a registration id, and a
  store whose primary keys are distinct, applying \<^verbatim>\<open>process_signup\<close> twice yields exactly
  one registration with that id. The second application reports \<^verbatim>\<open>is_new=False\<close> and adds no
  row; the row after it is the row after the first application except for
  \<^verbatim>\<open>signup_received_at\<close> and \<^verbatim>\<open>updated_at\<close> (the time of the second application) and for
  \<^verbatim>\<open>event_id\<close>, which is the same when the record carries an event id and generated anew
  otherwise. The payment-side fields of a registration that existed before are the same after
  each application, and every other registration is untouched.
\<close>

theorem process_signup_twice:
  assumes "ps_registration_id parsed = Some rid" and "rid \<noteq> []"
    and "distinct (map registration_id (registrations s))"
  shows "let s1 = snd (process_signup env1 s parsed);
             s2 = snd (process_signup env2 s1 parsed)
         in sr_registration_id (fst (process_signup env1 s parsed)) = Some rid
          \<and> fst (process_signup env2 s1 parsed) =
              \<lparr>sr_success = True, sr_registration_id = Some rid, sr_is_new = False,
               sr_error_message = None\<rparr>
          \<and> length (filter (\<lambda>r. registration_id r = rid) (registrations s2)) = 1
          \<and> length (registrations s2) = length (registrations s1)
          \<and> (\<exists>r1. get_registration s1 rid = Some r1
                \<and> get_registration s2 rid =
                    Some (r1\<lparr>event_id := signup_event_id env2 parsed,
                             signup_received_at := Some (now env2),
                             updated_at := now env2\<rparr>)
                \<and> (present (ps_event_id parsed) \<longrightarrow> signup_event_id env2 parsed = event_id r1)
                \<and> (\<forall>r0. get_registration s rid = Some r0 \<longrightarrow>
                      paid r1 = paid r0 \<and> paid_at r1 = paid_at r0 \<and>
                      payment_payload r1 = payment_payload r0 \<and>
                      payment_received_at r1 = payment_received_at r0 \<and>
                      payment_claimed_registration_id r1 = payment_claimed_registration_id r0 \<and>
                      payment_claimed_phone_e164 r1 = payment_claimed_phone_e164 r0 \<and>
                      payment_link_status r1 = payment_link_status r0))
          \<and> (\<forall>other. other \<noteq> rid \<longrightarrow> get_registration s2 other = get_registration s other)"
proof -
  let ?s1 = "snd (process_signup env1 s parsed)"
  let ?s2 = "snd (process_signup env2 ?s1 parsed)"
  have id1: "signup_registration_id env1 parsed = rid"
    and id2: "signup_registration_id env2 parsed = rid"
    using assms(1,2) by (simp_all add: signup_registration_id_given)
  from process_signup_row [OF id1, of s] obtain r1 where
    g1: "get_registration ?s1 rid = Some r1"
    and k1: "registration_id r1 = rid"
    and ev1: "event_id r1 = signup_event_id env1 parsed"
    and c1: "email r1 = ps_email parsed" "phone_e164 r1 = ps_phone_e164 parsed"
      "full_name r1 = ps_full_name parsed" "signup_payload r1 = Some (ps_raw_payload parsed)"
    and u1: "\<forall>r0. get_registration s rid = Some r0 \<longrightarrow>
                 r1 = update_existing env1 parsed (signup_event_id env1 parsed) r0"
    by blast
  have e2: "get_registration ?s1 (signup_registration_id env2 parsed) = Some r1"
    using g1 id2 by simp
  note second = process_signup_existing [OF e2]
  have res1: "sr_registration_id (fst (process_signup env1 s parsed)) = Some rid"
    using id1 by (simp add: process_signup_def Let_def)
  have res2: "fst (process_signup env2 ?s1 parsed) =
              \<lparr>sr_success = True, sr_registration_id = Some rid, sr_is_new = False,
               sr_error_message = None\<rparr>"
    using second id2 by simp
  have upd: "update_existing env2 parsed (signup_event_id env2 parsed) r1 =
               r1\<lparr>event_id := signup_event_id env2 parsed,
                  signup_received_at := Some (now env2),
                  updated_at := now env2\<rparr>"
    using c1 by (simp add: update_existing_def)
  have k2: "registration_id (update_existing env2 parsed (signup_event_id env2 parsed) r1) = rid"
    using k1 by (simp add: update_existing_def)
  have g2: "get_registration ?s2 rid =
              Some (r1\<lparr>event_id := signup_event_id env2 parsed,
                       signup_received_at := Some (now env2),
                       updated_at := now env2\<rparr>)"
    using g1 k2 second
    by (simp add: get_registration_def find_replace_row_same upd [symmetric])
  have len: "length (registrations ?s2) = length (registrations ?s1)"
    using second by (simp add: length_replace_row)
  have d1: "distinct (map registration_id (registrations ?s1))"
    by (rule process_signup_ids [OF assms(3)])
  have ids2: "map registration_id (registrations ?s2) = map registration_id (registrations ?s1)"
    using second by (simp add: ids_replace_row)
  have d2: "distinct (map registration_id (registrations ?s2))"
    using d1 ids2 by simp
  have "r1\<lparr>event_id := signup_event_id env2 parsed,
           signup_received_at := Some (now env2),
           updated_at := now env2\<rparr> \<in> set (registrations ?s2)"
    using get_registration_id [OF g2] by simp
  from filter_distinct_key [OF d2 this]
  have one: "length (filter (\<lambda>r. registration_id r = rid) (registrations ?s2)) = 1"
    using k1 by simp
  have evs: "signup_event_id env2 parsed = event_id r1" if "present (ps_event_id parsed)"
    using that ev1 by (simp add: signup_event_id_given)
  have pay: "paid r1 = paid r0 \<and> paid_at r1 = paid_at r0 \<and>
             payment_payload r1 = payment_payload r0 \<and>
             payment_received_at r1 = payment_received_at r0 \<and>
             payment_claimed_registration_id r1 = payment_claimed_registration_id r0 \<and>
             payment_claimed_phone_e164 r1 = payment_claimed_phone_e164 r0 \<and>
             payment_link_status r1 = payment_link_status r0"
    if "get_registration s rid = Some r0" for r0
    using that u1 by (simp add: update_existing_def)
  have others: "get_registration ?s2 other = get_registration s other" if "other \<noteq> rid" for other
    using that id1 id2 by (simp add: process_signup_other)
  have row: "\<exists>r1. get_registration ?s1 rid = Some r1
                \<and> get_registration ?s2 rid =
                    Some (r1\<lparr>event_id := signup_event_id env2 parsed,
                             signup_received_at := Some (now env2),
                             updated_at := now env2\<rparr>)
                \<and> (present (ps_event_id parsed) \<longrightarrow> signup_event_id env2 parsed = event_id r1)
                \<and> (\<forall>r0. get_registration s rid = Some r0 \<longrightarrow>
                      paid r1 = paid r0 \<and> paid_at r1 = paid_at r0 \<and>
                      payment_payload r1 = payment_payload r0 \<and>
                      payment_received_at r1 = payment_received_at r0 \<and>
                      payment_claimed_registration_id r1 = payment_claimed_registration_id r0 \<and>
                      payment_claimed_phone_e164 r1 = payment_claimed_phone_e164 r0 \<and>
                      payment_link_status r1 = payment_link_status r0)"
    using g1 g2 evs pay by blast
  show ?thesis
    unfolding Let_def using res1 res2 one len row others by blast
qed
lemma ex_store_paid_registrations:
  "registrations ex_store_paid =
     [mark_paid (new_registration ex_env1 ex_signup ''R1'' ''EVT-1'') ex_payment_by_id 2
        MATCHED_BY_REGISTRATION_ID]"
  by (simp add: ex_store_paid_def ex_run_registrations)

theorem process_signup_twice_witness:
  "ps_registration_id ex_signup = Some ''R1''
   \<and> distinct (map registration_id (registrations ex_store_paid))
   \<and> fst (process_signup ex_env2 (snd (process_signup ex_env1 ex_store_paid ex_signup)) ex_signup)
       = \<lparr>sr_success = True, sr_registration_id = Some ''R1'', sr_is_new = False,
          sr_error_message = None\<rparr>
   \<and> length (filter (\<lambda>r. registration_id r = ''R1'')
        (registrations
           (snd (process_signup ex_env2 (snd (process_signup ex_env1 ex_store_paid ex_signup))
                   ex_signup)))) = 1
   \<and> (\<exists>r1. get_registration (snd (process_signup ex_env1 ex_store_paid ex_signup)) ''R1'' = Some r1
         \<and> paid r1 \<and> payment_link_status r1 = ''matched_by_registration_id''
         \<and> get_registration
             (snd (process_signup ex_env2 (snd (process_signup ex_env1 ex_store_paid ex_signup))
                     ex_signup)) ''R1'' =
             Some (r1\<lparr>event_id := ''EVT-1'', signup_received_at := Some 2, updated_at := 2\<rparr>))"
proof -
  have h1: "ps_registration_id ex_signup = Some ''R1''" by (simp add: ex_signup_def)
  have h2: "''R1'' \<noteq> []" by simp
  have h3: "distinct (map registration_id (registrations ex_store_paid))"
    by (simp add: ex_store_paid_registrations)
  have g0: "get_registration ex_store_paid ''R1'' =
      Some (mark_paid (new_registration ex_env1 ex_signup ''R1'' ''EVT-1'') ex_payment_by_id 2
        MATCHED_BY_REGISTRATION_ID)"
    by (simp add: get_registration_def ex_store_paid_registrations mark_paid_def
        new_registration_def)
  have ev: "signup_event_id ex_env2 ex_signup = ''EVT-1''" and t: "now ex_env2 = 2"
    by (simp_all add: signup_event_id_def ex_signup_def ex_env2_def)
  from process_signup_twice [OF h1 h2 h3, of ex_env1 ex_env2] g0 ev t h1 h3
  show ?thesis
    unfolding Let_def by (auto simp: mark_paid_def)
qed

text \<open>
  Claim C5, as stated, is about every parsed signup record. A record without a registration
  id gets a freshly generated one at each application, so the second application creates a
  second registration and reports \<^verbatim>\<open>is_new=True\<close>.
\<close>

lemma ex_generated_ids:
  "signup_registration_id ex_env1 ex_signup_no_id = ''REG-0123456789AB''"
  "signup_registration_id ex_env2 ex_signup_no_id = ''REG-AAAA456789AB''"
  by code_simp+

theorem process_signup_twice_without_id:
  "sr_is_new (fst (process_signup ex_env2 (snd (process_signup ex_env1 empty_store ex_signup_no_id))
                     ex_signup_no_id))
   \<and> length (registrations
        (snd (process_signup ex_env2 (snd (process_signup ex_env1 empty_store ex_signup_no_id))
                ex_signup_no_id))) = 2"
proof -
  have n1: "get_registration empty_store (signup_registration_id ex_env1 ex_signup_no_id) = None"
    by (simp add: get_registration_def empty_store_def)
  have e: "registrations empty_store = []" by (simp add: empty_store_def)
  have n2: "get_registration (snd (process_signup ex_env1 empty_store ex_signup_no_id))
              (signup_registration_id ex_env2 ex_signup_no_id) = None"
    by (simp add: get_registration_def process_signup_new [OF n1] ex_generated_ids
        new_registration_def e)
  show ?thesis
    by (simp add: process_signup_new [OF n2] process_signup_new [OF n1] e)
qed


end
